theory Spec2Isabelle
  imports Main "HOL-Library.AList"
begin

section \<open>JSON values and Python dictionaries\<close>

text \<open>
  The pipeline moves values that \<^verbatim>\<open>json.load\<close> produced: \<^verbatim>\<open>None\<close>, booleans,
  integers, strings, lists, and dictionaries with string keys. Python's integers are
  unbounded, hence \<^typ>\<open>int\<close>. Floating-point numbers are outside this development.
  A dictionary keeps its keys in insertion order; it is an association list, read with
  \<^const>\<open>map_of\<close>, written with \<^const>\<open>AList.update\<close> (an existing key keeps its
  place, a new key goes to the end, as \<^verbatim>\<open>d[k] = v\<close> does) and shrunk with
  \<^const>\<open>AList.delete\<close> (\<^verbatim>\<open>del d[k]\<close>).
\<close>

datatype json =
    JNull
  | JBool bool
  | JNum int
  | JStr string
  | JArr "json list"
  | JObj "(string \<times> json) list"

type_synonym pydict = "(string \<times> json) list"

datatype error =
    KeyError
  | TypeError
  | AttributeError
  | FileNotFoundError
  | RequestException
  | JSONDecodeError
  | UniquenessException

text \<open>\<^verbatim>\<open>d.get(k)\<close>: the value, or \<^verbatim>\<open>None\<close> when the key is absent.\<close>

definition get :: "pydict \<Rightarrow> string \<Rightarrow> json" where
  "get d k = (case map_of d k of None \<Rightarrow> JNull | Some v \<Rightarrow> v)"

text \<open>\<^verbatim>\<open>k in d\<close>.\<close>

definition has_key :: "pydict \<Rightarrow> string \<Rightarrow> bool" where
  "has_key d k = (map_of d k \<noteq> None)"

text \<open>\<^verbatim>\<open>d[k]\<close>: raises \<^verbatim>\<open>KeyError\<close> when the key is absent.\<close>

definition getitem :: "pydict \<Rightarrow> string \<Rightarrow> error + json" where
  "getitem d k = (case map_of d k of None \<Rightarrow> Inl KeyError | Some v \<Rightarrow> Inr v)"

text \<open>Truth value of a JSON value, as \<^verbatim>\<open>if v:\<close> tests it.\<close>

fun truthy :: "json \<Rightarrow> bool" where
  "truthy JNull = False"
| "truthy (JBool b) = b"
| "truthy (JNum n) = (n \<noteq> 0)"
| "truthy (JStr s) = (s \<noteq> [])"
| "truthy (JArr xs) = (xs \<noteq> [])"
| "truthy (JObj kvs) = (kvs \<noteq> [])"

text \<open>
  Keys of a Python \<^verbatim>\<open>dict\<close> or members of a \<^verbatim>\<open>set\<close> are compared by hash and
  \<^verbatim>\<open>==\<close>: \<^verbatim>\<open>True\<close> and \<^verbatim>\<open>1\<close> are one key, \<^verbatim>\<open>False\<close> and \<^verbatim>\<open>0\<close> are one
  key. Lists and dictionaries are unhashable: using one as a key raises
  \<^verbatim>\<open>TypeError\<close>.
\<close>

datatype key = KNone | KInt int | KStr string

fun key_of :: "json \<Rightarrow> key option" where
  "key_of JNull = Some KNone"
| "key_of (JBool b) = Some (KInt (if b then 1 else 0))"
| "key_of (JNum n) = Some (KInt n)"
| "key_of (JStr s) = Some (KStr s)"
| "key_of (JArr xs) = None"
| "key_of (JObj kvs) = None"

text \<open>
  Python's \<^verbatim>\<open>==\<close> on JSON values: numbers and booleans compare by numeric value,
  lists element by element, dictionaries by equal size and equal values under each key
  (the order of the keys does not matter).
\<close>

fun py_eq :: "json \<Rightarrow> json \<Rightarrow> bool" where
  "py_eq JNull JNull = True"
| "py_eq (JBool a) (JBool b) = (a = b)"
| "py_eq (JBool a) (JNum n) = (n = (if a then 1 else 0))"
| "py_eq (JNum n) (JBool a) = (n = (if a then 1 else 0))"
| "py_eq (JNum m) (JNum n) = (m = n)"
| "py_eq (JStr s) (JStr t) = (s = t)"
| "py_eq (JArr xs) (JArr ys) = list_all2 py_eq xs ys"
| "py_eq (JObj a) (JObj b) =
     (length a = length b \<and>
      list_all (\<lambda>kv. case map_of b (fst kv) of None \<Rightarrow> False | Some w \<Rightarrow> py_eq (snd kv) w) a)"
| "py_eq _ _ = False"

section \<open>Files\<close>

text \<open>
  Every file the pipeline reads back holds a JSON list of dictionaries. The file system
  is a map from path to such a list; \<^verbatim>\<open>json.dump\<close> followed by \<^verbatim>\<open>json.load\<close> is
  taken to return the value written.
\<close>

type_synonym files = "string \<rightharpoonup> pydict list"

definition data_path :: "string \<Rightarrow> string" where
  "data_path name = ''data/'' @ name"

definition save_json :: "pydict list \<Rightarrow> string \<Rightarrow> files \<Rightarrow> files" where
  "save_json data filepath fs = fs(filepath \<mapsto> data)"

definition load_json :: "files \<Rightarrow> string \<Rightarrow> error + pydict list" where
  "load_json fs filepath =
     (case fs filepath of None \<Rightarrow> Inl FileNotFoundError | Some data \<Rightarrow> Inr data)"

section \<open>Linking experts with their works\<close>

text \<open>
  \<^verbatim>\<open>combine_experts_with_works\<close> (tools/export.py). The first loop builds
  \<^verbatim>\<open>works_by_expert\<close>; \<^verbatim>\<open>setdefault(expert_id, []).append(work)\<close> hashes the
  key, so a truthy unhashable \<^verbatim>\<open>ExpertId\<close> raises.
\<close>

type_synonym works_index = "(key \<times> pydict list) list"

fun index_works :: "works_index \<Rightarrow> pydict list \<Rightarrow> error + works_index" where
  "index_works works_by_expert [] = Inr works_by_expert"
| "index_works works_by_expert (work # works) =
     (let expert_id = get work ''ExpertId'' in
      if truthy expert_id then
        (case key_of expert_id of
           None \<Rightarrow> Inl TypeError
         | Some k \<Rightarrow>
             index_works
               (AList.update k
                  ((case map_of works_by_expert k of None \<Rightarrow> [] | Some l \<Rightarrow> l) @ [work])
                  works_by_expert)
               works)
      else index_works works_by_expert works)"

text \<open>
  The second loop: \<^verbatim>\<open>expert["works"] = works_by_expert.get(expert_id, [])\<close>. The
  lookup hashes \<^verbatim>\<open>expert_id\<close> too.
\<close>

fun attach_works :: "works_index \<Rightarrow> pydict list \<Rightarrow> error + pydict list" where
  "attach_works works_by_expert [] = Inr []"
| "attach_works works_by_expert (expert # experts) =
     (case key_of (get expert ''Id'') of
        None \<Rightarrow> Inl TypeError
      | Some k \<Rightarrow>
          (case attach_works works_by_expert experts of
             Inl e \<Rightarrow> Inl e
           | Inr experts' \<Rightarrow>
               Inr (AList.update ''works''
                      (JArr (map JObj (case map_of works_by_expert k of None \<Rightarrow> [] | Some l \<Rightarrow> l)))
                      expert
                    # experts')))"

definition combine_experts_with_works :: "files \<Rightarrow> string \<Rightarrow> string \<Rightarrow> error + pydict list" where
  "combine_experts_with_works fs experts_file works_file =
     (case load_json fs (data_path experts_file) of
        Inl e \<Rightarrow> Inl e
      | Inr experts \<Rightarrow>
          (case load_json fs (data_path works_file) of
             Inl e \<Rightarrow> Inl e
           | Inr works \<Rightarrow>
               (case index_works [] works of
                  Inl e \<Rightarrow> Inl e
                | Inr works_by_expert \<Rightarrow> attach_works works_by_expert experts)))"

section \<open>Strings\<close>

text \<open>
  \<^verbatim>\<open>sub in s\<close> on strings: \<open>sub\<close> occurs in \<open>s\<close> as a contiguous piece.
\<close>

fun str_in :: "string \<Rightarrow> string \<Rightarrow> bool" where
  "str_in sub [] = (sub = [])"
| "str_in sub (c # s) = (take (length sub) (c # s) = sub \<or> str_in sub s)"

text \<open>
  Case conversion, on the ASCII letters; every other character is left as it is.
\<close>

definition ascii_lowercase :: string where
  "ascii_lowercase = ''abcdefghijklmnopqrstuvwxyz''"

definition ascii_uppercase :: string where
  "ascii_uppercase = ''ABCDEFGHIJKLMNOPQRSTUVWXYZ''"

definition upper_char :: "char \<Rightarrow> char" where
  "upper_char c =
     (case map_of (zip ascii_lowercase ascii_uppercase) c of None \<Rightarrow> c | Some u \<Rightarrow> u)"

definition lower_char :: "char \<Rightarrow> char" where
  "lower_char c =
     (case map_of (zip ascii_uppercase ascii_lowercase) c of None \<Rightarrow> c | Some l \<Rightarrow> l)"

definition is_cased :: "char \<Rightarrow> bool" where
  "is_cased c = (c \<in> set (ascii_lowercase @ ascii_uppercase))"

text \<open>\<^verbatim>\<open>s.lower()\<close>.\<close>

definition lower :: "string \<Rightarrow> string" where
  "lower s = map lower_char s"

text \<open>
  \<^verbatim>\<open>s.title()\<close>: a character that follows a cased character is lowercased, any other
  character is uppercased.
\<close>

fun title_from :: "bool \<Rightarrow> string \<Rightarrow> string" where
  "title_from previous_is_cased [] = []"
| "title_from previous_is_cased (c # s) =
     (if previous_is_cased then lower_char c else upper_char c) # title_from (is_cased c) s"

definition title :: "string \<Rightarrow> string" where
  "title s = title_from False s"



section \<open>Saving the fetched data\<close>


section \<open>The vendor API client\<close>

text \<open>
  The vendor API answers a GET request (a URL and its query parameters) with a
  transport failure (connection error, timeout, or an HTTP error status that
  \<^verbatim>\<open>raise_for_status\<close> turns into an exception), with a body that is not JSON, or with
  the JSON object \<^verbatim>\<open>{"RecordList": [...]}\<close>, of which the model keeps the record list
  (\<open>None\<close> when the object has no such field).
\<close>

datatype response =
    Transport_failure
  | Malformed_body
  | Json_body "pydict list option"

type_synonym api = "string \<Rightarrow> pydict \<Rightarrow> response"



definition SINEQUA_EXPERT_PROFILE_URL :: string where
  "SINEQUA_EXPERT_PROFILE_URL =
     ''https://dws.roche.com/DigitalWorkspace_Home_API/rest/Sinequa/GetExpertProfile_GET''"


text \<open>\<^verbatim>\<open>DWSAPIClient._make_request\<close>: both handlers log and re-raise.\<close>

definition make_request :: "api \<Rightarrow> string \<Rightarrow> pydict \<Rightarrow> error + pydict list option" where
  "make_request session url params =
     (case session url params of
        Transport_failure \<Rightarrow> Inl RequestException
      | Malformed_body \<Rightarrow> Inl JSONDecodeError
      | Json_body response_data \<Rightarrow> Inr response_data)"

text \<open>\<^verbatim>\<open>response_data.get("RecordList", [])\<close>.\<close>

definition record_list :: "pydict list option \<Rightarrow> pydict list" where
  "record_list response_data = (case response_data of None \<Rightarrow> [] | Some records \<Rightarrow> records)"


text \<open>
  \<^verbatim>\<open>DWSAPIClient.get_expert_profile\<close>: the handler \<^verbatim>\<open>except Exception\<close> turns every
  failure of the request into \<^verbatim>\<open>None\<close>.
\<close>

definition get_expert_profile :: "api \<Rightarrow> json \<Rightarrow> pydict option" where
  "get_expert_profile session expert_id =
     (case make_request session SINEQUA_EXPERT_PROFILE_URL [(''UserId'', expert_id)] of
        Inl e \<Rightarrow> None
      | Inr response_data \<Rightarrow>
          (case record_list response_data of
             [] \<Rightarrow> None
           | profile # _ \<Rightarrow> Some profile))"

text \<open>
  The set comprehension of \<^verbatim>\<open>get_experts\<close>: the \<^verbatim>\<open>ExpertId\<close> values that are not
  \<^verbatim>\<open>None\<close>, one per dictionary key; an unhashable value raises. Python leaves the
  iteration order of a set unspecified; the model lists the members in the order they
  were first added.
\<close>

fun expert_id_set :: "json list \<Rightarrow> pydict list \<Rightarrow> error + json list" where
  "expert_id_set expert_ids [] = Inr expert_ids"
| "expert_id_set expert_ids (item # items) =
     (if get item ''ExpertId'' = JNull then expert_id_set expert_ids items
      else
        (case key_of (get item ''ExpertId'') of
           None \<Rightarrow> Inl TypeError
         | Some k \<Rightarrow>
             if list_ex (\<lambda>member. key_of member = Some k) expert_ids
             then expert_id_set expert_ids items
             else expert_id_set (expert_ids @ [get item ''ExpertId'']) items))"

text \<open>The loop of \<^verbatim>\<open>get_experts\<close>; \<^verbatim>\<open>if expert_profile:\<close> also skips an empty profile.\<close>

fun fetch_profiles :: "api \<Rightarrow> json list \<Rightarrow> pydict list" where
  "fetch_profiles session [] = []"
| "fetch_profiles session (expert_id # expert_ids) =
     (case get_expert_profile session expert_id of
        None \<Rightarrow> fetch_profiles session expert_ids
      | Some expert_profile \<Rightarrow>
          if expert_profile \<noteq> [] then expert_profile # fetch_profiles session expert_ids
          else fetch_profiles session expert_ids)"

definition get_experts :: "api \<Rightarrow> pydict list \<Rightarrow> error + pydict list" where
  "get_experts session outputs_and_works =
     (case expert_id_set [] outputs_and_works of
        Inl e \<Rightarrow> Inl e
      | Inr expert_ids \<Rightarrow> Inr (fetch_profiles session expert_ids))"


section \<open>The generator of synthetic identities\<close>

text \<open>
  Modelled from the spec: the generator (the third-party \<^verbatim>\<open>faker\<close> package) is not part
  of the source. The specification asks of it a random integer id in a fixed numeric
  range with uniqueness enforced across the whole run, a random first name, a random
  last name, and independently generated phone-format strings. The model makes the
  randomness an argument: the generator holds what each of its successive raw draws
  would return, counts the draws made, and remembers the ids it has handed out.
\<close>

record faker =
  random_int_at :: "nat \<Rightarrow> int"
  first_name_at :: "nat \<Rightarrow> string"
  last_name_at :: "nat \<Rightarrow> string"
  phone_number_at :: "nat \<Rightarrow> string"
  draws :: nat
  seen :: "int list"

text \<open>
  Modelled from the spec: \<^verbatim>\<open>random_int(min, max)\<close>, a raw draw brought into the range.
\<close>

definition random_int :: "int \<Rightarrow> int \<Rightarrow> faker \<Rightarrow> int \<times> faker" where
  "random_int lo hi g =
     (lo + random_int_at g (draws g) mod (hi - lo + 1), g\<lparr>draws := Suc (draws g)\<rparr>)"

text \<open>
  Modelled from the spec: \<^verbatim>\<open>first_name()\<close>, the next raw draw read as a first name.
\<close>

definition faker_first_name :: "faker \<Rightarrow> string \<times> faker" where
  "faker_first_name g = (first_name_at g (draws g), g\<lparr>draws := Suc (draws g)\<rparr>)"

text \<open>
  Modelled from the spec: \<^verbatim>\<open>last_name()\<close>, the next raw draw read as a last name.
\<close>

definition faker_last_name :: "faker \<Rightarrow> string \<times> faker" where
  "faker_last_name g = (last_name_at g (draws g), g\<lparr>draws := Suc (draws g)\<rparr>)"

text \<open>
  Modelled from the spec: \<^verbatim>\<open>phone_number()\<close>, the next raw draw read as a
  phone-format string.
\<close>

definition faker_phone_number :: "faker \<Rightarrow> string \<times> faker" where
  "faker_phone_number g = (phone_number_at g (draws g), g\<lparr>draws := Suc (draws g)\<rparr>)"

text \<open>
  Modelled from the spec: the number of attempts after which the unique generator gives
  up.
\<close>

definition unique_attempts :: nat where
  "unique_attempts = 1000"

text \<open>
  Modelled from the spec: the retry loop of the unique generator. It draws again while
  the value has been handed out before, gives up with an exception when the attempts
  are used up, and records the value it returns.
\<close>

fun unique_retry :: "nat \<Rightarrow> int \<Rightarrow> int \<Rightarrow> faker \<Rightarrow> error + int \<times> faker" where
  "unique_retry 0 lo hi g = Inl UniquenessException"
| "unique_retry (Suc n) lo hi g =
     (case random_int lo hi g of
        (retval, g') \<Rightarrow>
          if retval \<in> set (seen g') then unique_retry n lo hi g'
          else Inr (retval, g'\<lparr>seen := retval # seen g'\<rparr>))"

text \<open>
  Modelled from the spec: \<^verbatim>\<open>fake.unique.random_int(min, max)\<close>, uniqueness enforced
  across the whole run.
\<close>

definition unique_random_int :: "int \<Rightarrow> int \<Rightarrow> faker \<Rightarrow> error + int \<times> faker" where
  "unique_random_int lo hi g = unique_retry unique_attempts lo hi g"

section \<open>The anonymizer\<close>

text \<open>The field lists of utilities/anonymize.py.\<close>

definition remove_list :: "string list" where
  "remove_list = [''EncodedTitle'', ''ClickURL'', ''externalJobs'', ''Photo'', ''Content'',
     ''internalProjects'', ''Recomendations'', ''ActivityLinks'', ''Username'']"

definition name_list :: "string list" where
  "name_list = [''Title'', ''FirstName'', ''LastName'']"

definition works_list :: "string list" where
  "works_list = [''Owner'']"

definition contact_list :: "string list" where
  "contact_list = [''Email'', ''Phone'', ''Mobile'']"

definition id_list :: "string list" where
  "id_list = [''Id'']"

definition works_id_list :: "string list" where
  "works_id_list = [''ExpertId'']"

text \<open>\<^verbatim>\<open>remove_data\<close>: the loop over a list of attributes, and the function.\<close>

fun remove_attributes :: "string list \<Rightarrow> pydict \<Rightarrow> pydict" where
  "remove_attributes [] processed_record = processed_record"
| "remove_attributes (attribute # attributes) processed_record =
     remove_attributes attributes
       (if has_key processed_record attribute then AList.delete attribute processed_record
        else processed_record)"

definition remove_data :: "pydict \<Rightarrow> pydict" where
  "remove_data processed_record = remove_attributes remove_list processed_record"

text \<open>
  \<^verbatim>\<open>v.replace(v, new)\<close>: on a string the whole of it is replaced (the empty string
  too); any other JSON value has no method \<^verbatim>\<open>replace\<close>.
\<close>

fun replace_self :: "json \<Rightarrow> string \<Rightarrow> error + json" where
  "replace_self (JStr s) new = Inr (JStr new)"
| "replace_self _ new = Inl AttributeError"

fun anonymize_name ::
  "pydict \<Rightarrow> string list \<Rightarrow> string \<Rightarrow> string \<Rightarrow> string \<Rightarrow> error + pydict" where
  "anonymize_name processed_record [] name last_name full_name = Inr processed_record"
| "anonymize_name processed_record (attribute # list) name last_name full_name =
     (if has_key processed_record attribute then
        (case replace_self (get processed_record attribute)
                (if str_in ''FirstName'' attribute then name
                 else if str_in ''LastName'' attribute then last_name
                 else full_name) of
           Inl e \<Rightarrow> Inl e
         | Inr v \<Rightarrow>
             anonymize_name (AList.update attribute v processed_record) list
               name last_name full_name)
      else anonymize_name processed_record list name last_name full_name)"

fun anonymize_contact_attributes ::
  "string list \<Rightarrow> pydict \<Rightarrow> string \<Rightarrow> string \<Rightarrow> string \<Rightarrow> error + pydict" where
  "anonymize_contact_attributes [] processed_record email phone mobile = Inr processed_record"
| "anonymize_contact_attributes (attribute # attributes) processed_record email phone mobile =
     (if has_key processed_record attribute then
        (if str_in ''Email'' attribute then
           (case replace_self (get processed_record attribute) email of
              Inl e \<Rightarrow> Inl e
            | Inr v \<Rightarrow>
                anonymize_contact_attributes attributes
                  (AList.update attribute v processed_record) email phone mobile)
         else if str_in ''Phone'' attribute then
           (case replace_self (get processed_record attribute) phone of
              Inl e \<Rightarrow> Inl e
            | Inr v \<Rightarrow>
                anonymize_contact_attributes attributes
                  (AList.update attribute v processed_record) email phone mobile)
         else if str_in ''Mobile'' attribute then
           (case replace_self (get processed_record attribute) mobile of
              Inl e \<Rightarrow> Inl e
            | Inr v \<Rightarrow>
                anonymize_contact_attributes attributes
                  (AList.update attribute v processed_record) email phone mobile)
         else anonymize_contact_attributes attributes processed_record email phone mobile)
      else anonymize_contact_attributes attributes processed_record email phone mobile)"

definition anonymize_contacts ::
  "pydict \<Rightarrow> string \<Rightarrow> string \<Rightarrow> string \<Rightarrow> error + pydict" where
  "anonymize_contacts processed_record email phone mobile =
     anonymize_contact_attributes contact_list processed_record email phone mobile"

fun anonymize_id :: "pydict \<Rightarrow> string list \<Rightarrow> int \<Rightarrow> pydict" where
  "anonymize_id processed_record [] fake_id = processed_record"
| "anonymize_id processed_record (attribute # list) fake_id =
     anonymize_id
       (if has_key processed_record attribute then
          (if str_in ''Id'' attribute
           then AList.update attribute (JNum fake_id) processed_record
           else if str_in ''ExpertId'' attribute
           then AList.update attribute (JNum fake_id) processed_record
           else processed_record)
        else processed_record)
       list fake_id"

text \<open>
  The synthetic identity that one iteration of \<^verbatim>\<open>anonymize_data\<close> draws for an expert,
  in the order of the calls: id, first name, last name, phone, mobile. The full name
  and the e-mail address are composed from the two names.
\<close>

record identity =
  fake_id :: int
  fake_name :: string
  fake_last_name :: string
  fake_phone :: string
  fake_mobile :: string

definition fake_full_name :: "identity \<Rightarrow> string" where
  "fake_full_name i = fake_name i @ '' '' @ fake_last_name i"

definition fake_email :: "identity \<Rightarrow> string" where
  "fake_email i = lower (fake_name i) @ ''.'' @ lower (fake_last_name i) @ ''@roche.com''"

definition new_identity :: "faker \<Rightarrow> error + identity \<times> faker" where
  "new_identity g =
     (case unique_random_int 111111 999999 g of
        Inl e \<Rightarrow> Inl e
      | Inr (fid, g1) \<Rightarrow>
          (case faker_first_name g1 of (fname, g2) \<Rightarrow>
           case faker_last_name g2 of (lname, g3) \<Rightarrow>
           case faker_phone_number g3 of (phone, g4) \<Rightarrow>
           case faker_phone_number g4 of (mobile, g5) \<Rightarrow>
             Inr (\<lparr>fake_id = fid, fake_name = fname, fake_last_name = lname,
                   fake_phone = phone, fake_mobile = mobile\<rparr>, g5)))"

text \<open>
  The body of the inner loop for one record of the works and outputs:
  \<^verbatim>\<open>record["ExpertId"]\<close> raises \<^verbatim>\<open>KeyError\<close> when the field is missing.
\<close>

definition anonymize_record :: "json \<Rightarrow> identity \<Rightarrow> pydict \<Rightarrow> error + pydict" where
  "anonymize_record original_expert_id i rec =
     (case getitem rec ''ExpertId'' of
        Inl e \<Rightarrow> Inl e
      | Inr expert_id \<Rightarrow>
          if py_eq original_expert_id expert_id then
            (case anonymize_name (remove_data rec) works_list
                    (fake_name i) (fake_last_name i) (fake_full_name i) of
               Inl e \<Rightarrow> Inl e
             | Inr named \<Rightarrow>
                 (case anonymize_contacts named (fake_email i) (fake_phone i) (fake_mobile i) of
                    Inl e \<Rightarrow> Inl e
                  | Inr contacted \<Rightarrow> Inr (anonymize_id contacted works_id_list (fake_id i))))
          else Inr rec)"

text \<open>The inner loop, \<^verbatim>\<open>for record in data\<close>.\<close>

fun anonymize_records :: "json \<Rightarrow> identity \<Rightarrow> pydict list \<Rightarrow> error + pydict list" where
  "anonymize_records original_expert_id i [] = Inr []"
| "anonymize_records original_expert_id i (rec # data) =
     (case anonymize_record original_expert_id i rec of
        Inl e \<Rightarrow> Inl e
      | Inr rec' \<Rightarrow>
          (case anonymize_records original_expert_id i data of
             Inl e \<Rightarrow> Inl e
           | Inr data' \<Rightarrow> Inr (rec' # data')))"

text \<open>What the outer loop does to the expert record itself, after the inner loop.\<close>

definition anonymize_expert :: "identity \<Rightarrow> pydict \<Rightarrow> error + pydict" where
  "anonymize_expert i expert_record =
     (case anonymize_name expert_record name_list
             (fake_name i) (fake_last_name i) (fake_full_name i) of
        Inl e \<Rightarrow> Inl e
      | Inr named \<Rightarrow>
          (case anonymize_contacts named (fake_email i) (fake_phone i) (fake_mobile i) of
             Inl e \<Rightarrow> Inl e
           | Inr contacted \<Rightarrow> Inr (anonymize_id contacted id_list (fake_id i))))"

text \<open>
  The outer loop, \<^verbatim>\<open>for expert_record in expert_data\<close>: it returns the experts and
  the works and outputs as the loop leaves them.
\<close>

fun anonymize_experts ::
  "faker \<Rightarrow> pydict list \<Rightarrow> pydict list \<Rightarrow> error + pydict list \<times> pydict list" where
  "anonymize_experts g [] data = Inr ([], data)"
| "anonymize_experts g (expert_record # expert_data) data =
     (case getitem expert_record ''Id'' of
        Inl e \<Rightarrow> Inl e
      | Inr original_expert_id \<Rightarrow>
          (case new_identity g of
             Inl e \<Rightarrow> Inl e
           | Inr (i, g') \<Rightarrow>
               (case anonymize_records original_expert_id i data of
                  Inl e \<Rightarrow> Inl e
                | Inr data' \<Rightarrow>
                    (case anonymize_expert i (remove_data expert_record) of
                       Inl e \<Rightarrow> Inl e
                     | Inr expert_record' \<Rightarrow>
                         (case anonymize_experts g' expert_data data' of
                            Inl e \<Rightarrow> Inl e
                          | Inr (expert_data', data'') \<Rightarrow>
                              Inr (expert_record' # expert_data', data''))))))"

text \<open>
  \<^verbatim>\<open>anonymize_data\<close>: both input files are read before the loop, both output files
  are written after it.
\<close>

definition anonymize_data :: "faker \<Rightarrow> files \<Rightarrow> (error + unit) \<times> files" where
  "anonymize_data fake fs =
     (case load_json fs (data_path ''original_data.json'') of
        Inl e \<Rightarrow> (Inl e, fs)
      | Inr data \<Rightarrow>
          (case load_json fs (data_path ''experts.json'') of
             Inl e \<Rightarrow> (Inl e, fs)
           | Inr expert_data \<Rightarrow>
               (case anonymize_experts fake expert_data data of
                  Inl e \<Rightarrow> (Inl e, fs)
                | Inr (expert_data', data') \<Rightarrow>
                    (Inr (),
                     save_json expert_data' (data_path ''experts_cleaned.json'')
                       (save_json data' (data_path ''works_cleaned.json'') fs)))))"

section \<open>Example inputs\<close>



text \<open>
  A generator whose \<open>n\<close>-th raw draw is \<open>n\<close> as an integer, \<^verbatim>\<open>Ann\<close> as a first name,
  \<^verbatim>\<open>Lee\<close> as a last name and \<^verbatim>\<open>555\<close> as a phone number, before its first draw.
\<close>

definition counting_faker :: faker where
  "counting_faker =
     \<lparr>random_int_at = (\<lambda>n. int n), first_name_at = (\<lambda>n. ''Ann''),
      last_name_at = (\<lambda>n. ''Lee''), phone_number_at = (\<lambda>n. ''555''),
      draws = 0, seen = []\<rparr>"

text \<open>
  An experts file, a works and outputs file, and the two files that a run with
  \<^const>\<open>counting_faker\<close> writes from them. The first expert has two records, the
  second has none, and the second record belongs to no expert.
\<close>

definition demo_experts :: "pydict list" where
  "demo_experts =
     [[(''Id'', JNum 7), (''Title'', JStr ''Dr Eve Roe''), (''FirstName'', JStr ''Eve''),
       (''LastName'', JStr ''Roe''), (''Email'', JStr ''eve.roe@example.org''),
       (''Photo'', JStr ''jpeg'')],
      [(''Id'', JNum 8), (''Phone'', JStr ''123'')]]"

definition demo_data :: "pydict list" where
  "demo_data =
     [[(''ExpertId'', JNum 7), (''Owner'', JStr ''Eve Roe''), (''Content'', JStr ''text'')],
      [(''ExpertId'', JNum 9), (''Owner'', JStr ''Sam Poe''), (''Email'', JStr ''sam@example.org''),
       (''Photo'', JStr ''png'')],
      [(''ExpertId'', JNum 7), (''Mobile'', JStr ''456'')]]"

definition demo_files :: files where
  "demo_files = [data_path ''original_data.json'' \<mapsto> demo_data,
                 data_path ''experts.json'' \<mapsto> demo_experts]"

definition demo_experts_cleaned :: "pydict list" where
  "demo_experts_cleaned =
     [[(''Id'', JNum 111111), (''Title'', JStr ''Ann Lee''), (''FirstName'', JStr ''Ann''),
       (''LastName'', JStr ''Lee''), (''Email'', JStr ''ann.lee@roche.com'')],
      [(''Id'', JNum 111116), (''Phone'', JStr ''555'')]]"

definition demo_works_cleaned :: "pydict list" where
  "demo_works_cleaned =
     [[(''ExpertId'', JNum 111111), (''Owner'', JStr ''Ann Lee'')],
      [(''ExpertId'', JNum 9), (''Owner'', JStr ''Sam Poe''),
       (''Email'', JStr ''sam@example.org''), (''Photo'', JStr ''png'')],
      [(''ExpertId'', JNum 111111), (''Mobile'', JStr ''555'')]]"






text \<open>
  An experts file whose only expert has no \<^verbatim>\<open>Id\<close>.
\<close>

definition nameless_files :: files where
  "nameless_files = [data_path ''original_data.json'' \<mapsto> [],
                     data_path ''experts.json'' \<mapsto> [[(''Title'', JStr ''Dr Eve Roe'')]]]"

text \<open>
  No experts, and one record without \<^verbatim>\<open>ExpertId\<close>.
\<close>

definition orphan_files :: files where
  "orphan_files = [data_path ''original_data.json'' \<mapsto> [[(''Owner'', JStr ''Sam Poe'')]],
                   data_path ''experts.json'' \<mapsto> []]"

section \<open>Notions used in the statements\<close>

text \<open>The works stored under a key of \<^verbatim>\<open>works_by_expert\<close>.\<close>

definition entries :: "works_index \<Rightarrow> key \<Rightarrow> pydict list" where
  "entries idx k = (case map_of idx k of None \<Rightarrow> [] | Some l \<Rightarrow> l)"

text \<open>A work whose \<^verbatim>\<open>ExpertId\<close> passes the truth test but cannot be hashed.\<close>

definition unhashable_work :: "pydict \<Rightarrow> bool" where
  "unhashable_work work =
     (truthy (get work ''ExpertId'') \<and> key_of (get work ''ExpertId'') = None)"

definition unhashable_expert :: "pydict \<Rightarrow> bool" where
  "unhashable_expert expert = (key_of (get expert ''Id'') = None)"

text \<open>A work that the first loop files under the key \<open>k\<close>.\<close>

definition indexed_under :: "key \<Rightarrow> pydict \<Rightarrow> bool" where
  "indexed_under k work =
     (truthy (get work ''ExpertId'') \<and> key_of (get work ''ExpertId'') = Some k)"

text \<open>
  A work is linked to an expert when its \<^verbatim>\<open>ExpertId\<close> is truthy and is the same
  dictionary key as the expert's \<^verbatim>\<open>Id\<close>.
\<close>

definition linked :: "pydict \<Rightarrow> pydict \<Rightarrow> bool" where
  "linked expert work =
     (case key_of (get expert ''Id'') of None \<Rightarrow> False | Some k \<Rightarrow> indexed_under k work)"



text \<open>
  A JSON value that is a string, the only kind with a method \<^verbatim>\<open>replace\<close>.
\<close>

fun is_str :: "json \<Rightarrow> bool" where
  "is_str (JStr s) = True"
| "is_str _ = False"

text \<open>
  The name that \<^verbatim>\<open>anonymize_name\<close> writes into an attribute.
\<close>

definition name_for :: "string \<Rightarrow> string \<Rightarrow> string \<Rightarrow> string \<Rightarrow> string" where
  "name_for attribute name last_name full_name =
     (if str_in ''FirstName'' attribute then name
      else if str_in ''LastName'' attribute then last_name else full_name)"

text \<open>
  The value that \<^verbatim>\<open>anonymize_contacts\<close> writes into an attribute, if any.
\<close>

definition contact_for :: "string \<Rightarrow> string \<Rightarrow> string \<Rightarrow> string \<Rightarrow> string option" where
  "contact_for attribute email phone mobile =
     (if str_in ''Email'' attribute then Some email
      else if str_in ''Phone'' attribute then Some phone
      else if str_in ''Mobile'' attribute then Some mobile else None)"

text \<open>
  The fields of a work or output after it matched an expert and was rewritten with the
  identity \<open>i\<close>: the remove list is gone, \<^verbatim>\<open>Owner\<close>, the contact fields and
  \<^verbatim>\<open>ExpertId\<close> are synthetic where they were present, every other field is as it was.
\<close>

definition rewritten_work :: "identity \<Rightarrow> pydict \<Rightarrow> string \<Rightarrow> json option" where
  "rewritten_work i r k =
     (if k \<in> set remove_list \<or> \<not> has_key r k then None
      else if k = ''Owner'' then Some (JStr (fake_full_name i))
      else if k = ''Email'' then Some (JStr (fake_email i))
      else if k = ''Phone'' then Some (JStr (fake_phone i))
      else if k = ''Mobile'' then Some (JStr (fake_mobile i))
      else if k = ''ExpertId'' then Some (JNum (fake_id i))
      else map_of r k)"

text \<open>
  The fields of an expert after it was rewritten with the identity \<open>i\<close>.
\<close>

definition rewritten_expert :: "identity \<Rightarrow> pydict \<Rightarrow> string \<Rightarrow> json option" where
  "rewritten_expert i r k =
     (if k \<in> set remove_list \<or> \<not> has_key r k then None
      else if k = ''Title'' then Some (JStr (fake_full_name i))
      else if k = ''FirstName'' then Some (JStr (fake_name i))
      else if k = ''LastName'' then Some (JStr (fake_last_name i))
      else if k = ''Email'' then Some (JStr (fake_email i))
      else if k = ''Phone'' then Some (JStr (fake_phone i))
      else if k = ''Mobile'' then Some (JStr (fake_mobile i))
      else if k = ''Id'' then Some (JNum (fake_id i))
      else map_of r k)"

text \<open>
  Each of the given attributes is absent from the record or holds a string.
\<close>

definition str_fields :: "string list \<Rightarrow> pydict \<Rightarrow> bool" where
  "str_fields attributes r = list_all (\<lambda>k. \<not> has_key r k \<or> is_str (get r k)) attributes"

text \<open>
  No field of the remove list is left in the record.
\<close>

definition clean :: "pydict \<Rightarrow> bool" where
  "clean r = list_all (\<lambda>a. \<not> has_key r a) remove_list"

text \<open>
  The test of the inner loop, on the original values:
  \<^verbatim>\<open>original_expert_id == record["ExpertId"]\<close>.
\<close>

definition matches :: "pydict \<Rightarrow> pydict \<Rightarrow> bool" where
  "matches expert r = py_eq (get expert ''Id'') (get r ''ExpertId'')"

text \<open>
  Every expert has the field \<^verbatim>\<open>Id\<close> and, unless there are no experts, every work and
  output has the field \<^verbatim>\<open>ExpertId\<close>.
\<close>

definition ids_present :: "pydict list \<Rightarrow> pydict list \<Rightarrow> bool" where
  "ids_present experts data =
     (list_all (\<lambda>e. has_key e ''Id'') experts \<and>
      (experts = [] \<or> list_all (\<lambda>r. has_key r ''ExpertId'') data))"

text \<open>
  Every name and contact field that is present, in the experts and in the works and
  outputs, holds a string.
\<close>

definition string_fields :: "pydict list \<Rightarrow> pydict list \<Rightarrow> bool" where
  "string_fields experts data =
     (list_all (str_fields (name_list @ contact_list)) experts \<and>
      list_all (str_fields (works_list @ contact_list)) data)"

text \<open>
  The generator hands out \<open>n\<close> identities in a row without giving up.
\<close>

fun supplies :: "faker \<Rightarrow> nat \<Rightarrow> bool" where
  "supplies g 0 = True"
| "supplies g (Suc n) =
     (case new_identity g of Inl e \<Rightarrow> False | Inr (i, g') \<Rightarrow> supplies g' n)"

text \<open>
  The identities that the generator hands out to the first \<open>n\<close> experts.
\<close>

fun identities :: "faker \<Rightarrow> nat \<Rightarrow> identity list" where
  "identities g 0 = []"
| "identities g (Suc n) =
     (case new_identity g of Inl e \<Rightarrow> [] | Inr (i, g') \<Rightarrow> i # identities g' n)"

text \<open>
  The identity of the first expert that a record matches, if any.
\<close>

fun assigned :: "pydict list \<Rightarrow> identity list \<Rightarrow> pydict \<Rightarrow> identity option" where
  "assigned (e # es) (i # ids) r = (if matches e r then Some i else assigned es ids r)"
| "assigned _ _ r = None"

text \<open>
  The \<open>j\<close>-th expert is the first expert of the list whose original \<^verbatim>\<open>Id\<close> equals the
  original \<^verbatim>\<open>ExpertId\<close> of the record: the expert whose turn of the outer loop
  rewrites the record.
\<close>

definition first_match :: "pydict list \<Rightarrow> nat \<Rightarrow> pydict \<Rightarrow> bool" where
  "first_match experts j r =
     (j < length experts \<and> matches (experts ! j) r \<and>
      list_all (\<lambda>e. \<not> matches e r) (take j experts))"



text \<open>
  No record is rewritten twice. The inner loop compares an expert's original \<^verbatim>\<open>Id\<close>
  with the \<^verbatim>\<open>ExpertId\<close> a record holds at that moment, so a record already rewritten
  for an earlier expert is rewritten again when the id generated for that earlier expert
  equals the original \<^verbatim>\<open>Id\<close> of a later one. The condition follows the outer loop:
  the expert at the head either has no record among those still unassigned, or its
  generated id differs from the original \<^verbatim>\<open>Id\<close> of every later expert; the records
  it matched are then set aside. An expert whose own original \<^verbatim>\<open>Id\<close> equals its
  generated id, and a generated id that equals the \<^verbatim>\<open>Id\<close> of an earlier expert or is
  given to an expert without records, are allowed.
\<close>

fun collision_free :: "pydict list \<Rightarrow> identity list \<Rightarrow> pydict list \<Rightarrow> bool" where
  "collision_free (e # es) (i # ids) data =
     ((\<not> list_ex (matches e) data \<or>
       list_all (\<lambda>e'. \<not> py_eq (get e' ''Id'') (JNum (fake_id i))) es) \<and>
      collision_free es ids (filter (\<lambda>r. \<not> matches e r) data))"
| "collision_free _ _ data = True"

section \<open>Linkage: what each expert receives\<close>

lemma index_works_fail:
  "list_ex unhashable_work works \<Longrightarrow> index_works idx works = Inl TypeError"
  by (induction works arbitrary: idx)
     (auto simp: unhashable_work_def Let_def split: option.splits)

lemma index_works_ok:
  "\<not> list_ex unhashable_work works \<Longrightarrow>
   \<exists>idx'. index_works idx works = Inr idx' \<and>
     (\<forall>k. entries idx' k = entries idx k @ filter (indexed_under k) works)"
proof (induction works arbitrary: idx)
  case Nil
  then show ?case by simp
next
  case (Cons w ws)
  show ?case
  proof (cases "truthy (get w ''ExpertId'')")
    case False
    with Cons show ?thesis by (simp add: indexed_under_def unhashable_work_def)
  next
    case True
    with Cons.prems obtain k where k: "key_of (get w ''ExpertId'') = Some k"
      by (auto simp: unhashable_work_def)
    let ?idx = "AList.update k (entries idx k @ [w]) idx"
    from Cons.prems have "\<not> list_ex unhashable_work ws" by simp
    from Cons.IH[OF this, of ?idx] obtain idx' where
      r: "index_works ?idx ws = Inr idx'" and
      e: "\<And>k'. entries idx' k' = entries ?idx k' @ filter (indexed_under k') ws"
      by blast
    have "index_works idx (w # ws) = Inr idx'"
      using True k r by (simp add: entries_def)
    moreover have "entries idx' k' = entries idx k' @ filter (indexed_under k') (w # ws)" for k'
      using e[of k'] True k
      by (auto simp: entries_def update_conv' indexed_under_def)
    ultimately show ?thesis by blast
  qed
qed

lemma attach_works_fail:
  "list_ex unhashable_expert experts \<Longrightarrow> attach_works idx experts = Inl TypeError"
  by (induction experts) (auto simp: unhashable_expert_def split: option.splits sum.splits)

lemma attach_works_ok_entries:
  "\<not> list_ex unhashable_expert experts \<Longrightarrow>
   attach_works idx experts =
     Inr (map (\<lambda>e. AList.update ''works''
                 (JArr (map JObj (entries idx (the (key_of (get e ''Id'')))))) e) experts)"
  by (induction experts)
     (auto simp: entries_def unhashable_expert_def split: option.splits sum.splits)

lemma linked_key: "key_of (get e ''Id'') = Some k \<Longrightarrow> linked e = indexed_under k"
  by (rule ext) (simp add: linked_def)

lemma attach_works_ok:
  assumes "\<not> list_ex unhashable_expert experts"
    and "\<And>k. entries idx k = filter (indexed_under k) works"
  shows "attach_works idx experts =
     Inr (map (\<lambda>e. AList.update ''works'' (JArr (map JObj (filter (linked e) works))) e)
            experts)"
proof -
  have "map (\<lambda>e. AList.update ''works''
               (JArr (map JObj (entries idx (the (key_of (get e ''Id'')))))) e) experts
      = map (\<lambda>e. AList.update ''works'' (JArr (map JObj (filter (linked e) works))) e) experts"
    using assms
    by (intro map_cong refl) (auto simp: linked_key list_ex_iff unhashable_expert_def)
  then show ?thesis
    using assms(1) by (simp add: attach_works_ok_entries)
qed

text \<open>
  Claim C1, as amended. Given an experts file and a works file,
  \<^verbatim>\<open>combine_experts_with_works\<close> raises \<^verbatim>\<open>TypeError\<close> when some work has a truthy
  unhashable \<^verbatim>\<open>ExpertId\<close> or some expert has an unhashable \<^verbatim>\<open>Id\<close>; otherwise it
  returns the experts in their order, each with a \<^verbatim>\<open>works\<close> list that is exactly the
  sublist of the works file (same order, each occurrence once) whose \<^verbatim>\<open>ExpertId\<close> is
  truthy and equal, as a dictionary key, to the expert's \<^verbatim>\<open>Id\<close>. A work whose
  \<^verbatim>\<open>ExpertId\<close> is absent, falsy (\<^verbatim>\<open>None\<close>, \<^verbatim>\<open>0\<close>, \<^verbatim>\<open>False\<close>, empty) or equal to
  no expert's \<^verbatim>\<open>Id\<close> is therefore in no expert's list.
\<close>

theorem combine_experts_with_works_links:
  assumes "fs (data_path experts_file) = Some experts"
    and "fs (data_path works_file) = Some works"
  shows "combine_experts_with_works fs experts_file works_file =
     (if list_ex unhashable_work works \<or> list_ex unhashable_expert experts
      then Inl TypeError
      else Inr (map (\<lambda>e. AList.update ''works'' (JArr (map JObj (filter (linked e) works))) e)
                  experts))"
proof (cases "list_ex unhashable_work works")
  case True
  then show ?thesis using assms
    by (simp add: combine_experts_with_works_def load_json_def index_works_fail)
next
  case False
  from index_works_ok[OF this, of "[]"] obtain idx where
    r: "index_works [] works = Inr idx" and
    e: "\<And>k. entries idx k = filter (indexed_under k) works"
    by (auto simp: entries_def)
  show ?thesis
  proof (cases "list_ex unhashable_expert experts")
    case True
    then show ?thesis using assms r
      by (simp add: combine_experts_with_works_def load_json_def attach_works_fail)
  next
    case nofail: False
    show ?thesis using assms r False nofail attach_works_ok[OF nofail e]
      by (simp add: combine_experts_with_works_def load_json_def)
  qed
qed

text \<open>
  Witness for C1: the scenario of the specification, with a second work for the same
  expert and a work for an expert that does not exist.
\<close>

theorem combine_experts_with_works_links_witness:
  "combine_experts_with_works
     [data_path ''experts.json'' \<mapsto> [[(''Id'', JNum 1), (''FirstName'', JStr ''Ann'')]],
      data_path ''works.json'' \<mapsto>
        [[(''ExpertId'', JNum 1), (''Owner'', JStr ''Ann X'')],
         [(''ExpertId'', JNum 99)],
         [(''ExpertId'', JNum 1), (''Owner'', JStr ''Ann Y'')]]]
     ''experts.json'' ''works.json''
   = Inr [[(''Id'', JNum 1), (''FirstName'', JStr ''Ann''),
           (''works'', JArr [JObj [(''ExpertId'', JNum 1), (''Owner'', JStr ''Ann X'')],
                            JObj [(''ExpertId'', JNum 1), (''Owner'', JStr ''Ann Y'')]])]]"
  using combine_experts_with_works_links
    [of "[data_path ''experts.json'' \<mapsto> [[(''Id'', JNum 1), (''FirstName'', JStr ''Ann'')]],
          data_path ''works.json'' \<mapsto>
            [[(''ExpertId'', JNum 1), (''Owner'', JStr ''Ann X'')],
             [(''ExpertId'', JNum 99)],
             [(''ExpertId'', JNum 1), (''Owner'', JStr ''Ann Y'')]]]"
        "''experts.json''"
        "[[(''Id'', JNum 1), (''FirstName'', JStr ''Ann'')]]"
        "''works.json''"
        "[[(''ExpertId'', JNum 1), (''Owner'', JStr ''Ann X'')],
          [(''ExpertId'', JNum 99)],
          [(''ExpertId'', JNum 1), (''Owner'', JStr ''Ann Y'')]]"]
  by (simp add: data_path_def unhashable_work_def unhashable_expert_def linked_def
        indexed_under_def get_def)

text \<open>
  Counterexample to C1 as stated: the expert's \<^verbatim>\<open>Id\<close> and the work's \<^verbatim>\<open>ExpertId\<close>
  are both \<^verbatim>\<open>0\<close>, hence equal, yet the work is not in the expert's \<^verbatim>\<open>works\<close>: the
  truth test \<^verbatim>\<open>if expert_id:\<close> drops it.
\<close>

theorem combine_experts_with_works_drops_zero_id:
  "get [(''ExpertId'', JNum 0)] ''ExpertId'' = get [(''Id'', JNum 0)] ''Id'' \<and>
   combine_experts_with_works
     [data_path ''experts.json'' \<mapsto> [[(''Id'', JNum 0)]],
      data_path ''works.json'' \<mapsto> [[(''ExpertId'', JNum 0)]]]
     ''experts.json'' ''works.json''
   = Inr [[(''Id'', JNum 0), (''works'', JArr [])]]"
  by (simp add: combine_experts_with_works_def load_json_def data_path_def get_def)

section \<open>The type-name test of \<^verbatim>\<open>save_initial_data\<close>\<close>






section \<open>Failures of the vendor API\<close>



lemma expert_id_set_error: "expert_id_set acc items = Inl e \<Longrightarrow> e = TypeError"
  by (induction acc items rule: expert_id_set.induct)
     (auto split: if_splits option.splits)

lemma get_experts_error: "get_experts session items = Inl e \<Longrightarrow> e = TypeError"
  by (auto simp: get_experts_def dest: expert_id_set_error split: sum.splits)





section \<open>The anonymizer, record by record\<close>

lemma replace_self_if:
  "replace_self v new = (if is_str v then Inr (JStr new) else Inl AttributeError)"
  by (cases v) simp_all

lemma has_key_update [simp]: "has_key (AList.update k v r) k' = (k' = k \<or> has_key r k')"
  by (simp add: has_key_def update_conv')

lemma has_key_delete [simp]: "has_key (AList.delete k r) k' = (k' \<noteq> k \<and> has_key r k')"
  by (simp add: has_key_def delete_conv')

lemma get_update [simp]: "get (AList.update k v r) k' = (if k' = k then v else get r k')"
  by (simp add: get_def update_conv')

lemma map_of_remove_attributes:
  "map_of (remove_attributes attributes r) = map_of r |` (- set attributes)"
  by (induction attributes arbitrary: r)
     (auto simp: delete_conv' restrict_map_def fun_eq_iff has_key_def)

lemma has_key_remove_data: "has_key (remove_data r) k = (k \<notin> set remove_list \<and> has_key r k)"
  by (simp add: has_key_def remove_data_def map_of_remove_attributes restrict_map_def)

lemma anonymize_name_Inr:
  "anonymize_name r list n l f = Inr r' \<Longrightarrow>
   map_of r' k = (if k \<in> set list \<and> has_key r k then Some (JStr (name_for k n l f))
                  else map_of r k)"
proof (induction list arbitrary: r)
  case Nil
  then show ?case by simp
next
  case (Cons a list)
  show ?case
  proof (cases "has_key r a")
    case False
    with Cons show ?thesis by auto
  next
    case True
    with Cons.prems have s: "is_str (get r a)"
      and rec: "anonymize_name (AList.update a (JStr (name_for a n l f)) r) list n l f = Inr r'"
      by (auto simp: replace_self_if name_for_def split: if_splits)
    from Cons.IH[OF rec] True show ?thesis
      by (auto simp: update_conv')
  qed
qed

lemma anonymize_name_Inl:
  "anonymize_name r list n l f = Inl e \<Longrightarrow>
   e = AttributeError \<and> (\<exists>k\<in>set list. has_key r k \<and> \<not> is_str (get r k))"
proof (induction list arbitrary: r)
  case Nil
  then show ?case by simp
next
  case (Cons a list)
  show ?case
  proof (cases "has_key r a \<and> is_str (get r a)")
    case True
    with Cons.prems have
      "anonymize_name (AList.update a (JStr (name_for a n l f)) r) list n l f = Inl e"
      by (auto simp: replace_self_if name_for_def split: if_splits)
    from Cons.IH[OF this] True show ?thesis by (auto split: if_splits)
  next
    case False
    with Cons show ?thesis
      by (cases "has_key r a") (auto simp: replace_self_if split: if_splits)
  qed
qed

lemma anonymize_contact_attributes_Inr:
  "anonymize_contact_attributes attributes r email phone mobile = Inr r' \<Longrightarrow>
   map_of r' k =
     (if k \<in> set attributes \<and> has_key r k then
        (case contact_for k email phone mobile of None \<Rightarrow> map_of r k | Some s \<Rightarrow> Some (JStr s))
      else map_of r k)"
proof (induction attributes arbitrary: r)
  case Nil
  then show ?case by simp
next
  case (Cons a attributes)
  show ?case
  proof (cases "has_key r a")
    case False
    with Cons show ?thesis by auto
  next
    case True
    show ?thesis
    proof (cases "contact_for a email phone mobile")
      case None
      with True Cons.prems have
        "anonymize_contact_attributes attributes r email phone mobile = Inr r'"
        by (auto simp: contact_for_def split: if_splits)
      from Cons.IH[OF this] None True show ?thesis by auto
    next
      case (Some s)
      with True Cons.prems have
        "anonymize_contact_attributes attributes (AList.update a (JStr s) r) email phone mobile
           = Inr r'"
        by (auto simp: contact_for_def replace_self_if split: if_splits)
      from Cons.IH[OF this] Some True show ?thesis
        by (auto simp: update_conv' split: option.splits)
    qed
  qed
qed

lemma anonymize_contact_attributes_Inl:
  "anonymize_contact_attributes attributes r email phone mobile = Inl e \<Longrightarrow>
   e = AttributeError \<and> (\<exists>k\<in>set attributes. has_key r k \<and> \<not> is_str (get r k))"
proof (induction attributes arbitrary: r)
  case Nil
  then show ?case by simp
next
  case (Cons a attributes)
  show ?case
  proof (cases "has_key r a")
    case False
    with Cons show ?thesis by auto
  next
    case True
    show ?thesis
    proof (cases "contact_for a email phone mobile")
      case None
      with True Cons.prems have
        "anonymize_contact_attributes attributes r email phone mobile = Inl e"
        by (auto simp: contact_for_def split: if_splits)
      from Cons.IH[OF this] show ?thesis by auto
    next
      case (Some s)
      show ?thesis
      proof (cases "is_str (get r a)")
        case False
        with True Some Cons.prems show ?thesis
          by (auto simp: contact_for_def replace_self_if split: if_splits)
      next
        case str: True
        with True Some Cons.prems have
          "anonymize_contact_attributes attributes (AList.update a (JStr s) r) email phone mobile
             = Inl e"
          by (auto simp: contact_for_def replace_self_if split: if_splits)
        from Cons.IH[OF this] str True show ?thesis by (auto split: if_splits)
      qed
    qed
  qed
qed

lemma map_of_anonymize_id:
  "map_of (anonymize_id r list fid) k =
     (if k \<in> set list \<and> has_key r k \<and> (str_in ''Id'' k \<or> str_in ''ExpertId'' k)
      then Some (JNum fid) else map_of r k)"
  by (induction list arbitrary: r) (auto simp: update_conv')

lemma map_of_absent: "\<not> has_key r k \<Longrightarrow> map_of r k = None"
  by (simp add: has_key_def)

lemma map_of_remove_data:
  "map_of (remove_data r) k = (if k \<in> set remove_list then None else map_of r k)"
  by (simp add: remove_data_def map_of_remove_attributes restrict_map_def)

lemma anonymize_record_unmatched:
  "map_of r ''ExpertId'' = Some v \<Longrightarrow> \<not> py_eq oid v \<Longrightarrow> anonymize_record oid i r = Inr r"
  by (simp add: anonymize_record_def getitem_def)

lemma anonymize_record_matched:
  assumes "map_of r ''ExpertId'' = Some v" and "py_eq oid v"
    and "anonymize_record oid i r = Inr r'"
  shows "map_of r' = rewritten_work i r"
proof -
  from assms obtain named contacted where
    n: "anonymize_name (remove_data r) works_list (fake_name i) (fake_last_name i)
          (fake_full_name i) = Inr named" and
    c: "anonymize_contacts named (fake_email i) (fake_phone i) (fake_mobile i) = Inr contacted" and
    r': "r' = anonymize_id contacted works_id_list (fake_id i)"
    by (auto simp: anonymize_record_def getitem_def split: sum.splits)
  have hn: "has_key named k = has_key (remove_data r) k" for k
    using anonymize_name_Inr[OF n, of k] by (auto simp: has_key_def)
  have hc: "has_key contacted k = has_key named k" for k
    using anonymize_contact_attributes_Inr[OF c[unfolded anonymize_contacts_def], of k]
    by (auto simp: has_key_def split: option.splits)
  have m: "map_of r' k =
      (if k \<in> set works_id_list \<and> has_key (remove_data r) k \<and>
          (str_in ''Id'' k \<or> str_in ''ExpertId'' k)
       then Some (JNum (fake_id i))
       else if k \<in> set contact_list \<and> has_key (remove_data r) k then
         (case contact_for k (fake_email i) (fake_phone i) (fake_mobile i) of
            None \<Rightarrow> map_of named k | Some s \<Rightarrow> Some (JStr s))
       else map_of named k)" for k
    unfolding r' map_of_anonymize_id
      anonymize_contact_attributes_Inr[OF c[unfolded anonymize_contacts_def]] hc hn
    by simp
  have nm: "map_of named k =
      (if k \<in> set works_list \<and> has_key (remove_data r) k
       then Some (JStr (name_for k (fake_name i) (fake_last_name i) (fake_full_name i)))
       else map_of (remove_data r) k)" for k
    by (rule anonymize_name_Inr[OF n])
  show ?thesis
  proof
    fix k
    consider (eid) "k = ''ExpertId''" | (owner) "k = ''Owner''" | (email) "k = ''Email''"
      | (phone) "k = ''Phone''" | (mobile) "k = ''Mobile''"
      | (other) "k \<notin> set works_id_list" "k \<notin> set contact_list" "k \<notin> set works_list"
      by (auto simp: works_id_list_def contact_list_def works_list_def)
    then show "map_of r' k = rewritten_work i r k"
    proof cases
      case eid
      show ?thesis unfolding m nm eid
        by (simp add: rewritten_work_def has_key_remove_data works_id_list_def works_list_def
              contact_list_def remove_list_def map_of_remove_data map_of_absent)
    next
      case owner
      show ?thesis unfolding m nm owner
        by (simp add: rewritten_work_def has_key_remove_data works_id_list_def works_list_def
              contact_list_def remove_list_def name_for_def map_of_remove_data map_of_absent)
    next
      case email
      show ?thesis unfolding m nm email
        by (simp add: rewritten_work_def has_key_remove_data works_id_list_def works_list_def
              contact_list_def remove_list_def contact_for_def map_of_remove_data map_of_absent)
    next
      case phone
      show ?thesis unfolding m nm phone
        by (simp add: rewritten_work_def has_key_remove_data works_id_list_def works_list_def
              contact_list_def remove_list_def contact_for_def map_of_remove_data map_of_absent)
    next
      case mobile
      show ?thesis unfolding m nm mobile
        by (simp add: rewritten_work_def has_key_remove_data works_id_list_def works_list_def
              contact_list_def remove_list_def contact_for_def map_of_remove_data map_of_absent)
    next
      case other
      then have ne: "k \<noteq> ''Owner''" "k \<noteq> ''Email''" "k \<noteq> ''Phone''" "k \<noteq> ''Mobile''"
        "k \<noteq> ''ExpertId''"
        by (auto simp: works_id_list_def contact_list_def works_list_def)
      show ?thesis unfolding m nm
        using other ne
        by (simp add: rewritten_work_def map_of_remove_data map_of_absent)
    qed
  qed
qed

lemma anonymize_expert_rewritten:
  assumes "anonymize_expert i (remove_data r) = Inr r'"
  shows "map_of r' = rewritten_expert i r"
proof -
  from assms obtain named contacted where
    n: "anonymize_name (remove_data r) name_list (fake_name i) (fake_last_name i)
          (fake_full_name i) = Inr named" and
    c: "anonymize_contacts named (fake_email i) (fake_phone i) (fake_mobile i) = Inr contacted" and
    r': "r' = anonymize_id contacted id_list (fake_id i)"
    by (auto simp: anonymize_expert_def split: sum.splits)
  have hn: "has_key named k = has_key (remove_data r) k" for k
    using anonymize_name_Inr[OF n, of k] by (auto simp: has_key_def)
  have hc: "has_key contacted k = has_key named k" for k
    using anonymize_contact_attributes_Inr[OF c[unfolded anonymize_contacts_def], of k]
    by (auto simp: has_key_def split: option.splits)
  have m: "map_of r' k =
      (if k \<in> set id_list \<and> has_key (remove_data r) k \<and>
          (str_in ''Id'' k \<or> str_in ''ExpertId'' k)
       then Some (JNum (fake_id i))
       else if k \<in> set contact_list \<and> has_key (remove_data r) k then
         (case contact_for k (fake_email i) (fake_phone i) (fake_mobile i) of
            None \<Rightarrow> map_of named k | Some s \<Rightarrow> Some (JStr s))
       else map_of named k)" for k
    unfolding r' map_of_anonymize_id
      anonymize_contact_attributes_Inr[OF c[unfolded anonymize_contacts_def]] hc hn
    by simp
  have nm: "map_of named k =
      (if k \<in> set name_list \<and> has_key (remove_data r) k
       then Some (JStr (name_for k (fake_name i) (fake_last_name i) (fake_full_name i)))
       else map_of (remove_data r) k)" for k
    by (rule anonymize_name_Inr[OF n])
  show ?thesis
  proof
    fix k
    consider (id) "k = ''Id''" | (title) "k = ''Title''" | (first) "k = ''FirstName''"
      | (last) "k = ''LastName''" | (email) "k = ''Email''"
      | (phone) "k = ''Phone''" | (mobile) "k = ''Mobile''"
      | (other) "k \<notin> set id_list" "k \<notin> set contact_list" "k \<notin> set name_list"
      by (auto simp: id_list_def contact_list_def name_list_def)
    then show "map_of r' k = rewritten_expert i r k"
    proof cases
      case id
      show ?thesis unfolding m nm id
        by (simp add: rewritten_expert_def has_key_remove_data id_list_def name_list_def
              contact_list_def remove_list_def map_of_remove_data map_of_absent)
    next
      case title
      show ?thesis unfolding m nm title
        by (simp add: rewritten_expert_def has_key_remove_data id_list_def name_list_def
              contact_list_def remove_list_def name_for_def map_of_remove_data map_of_absent)
    next
      case first
      show ?thesis unfolding m nm first
        by (simp add: rewritten_expert_def has_key_remove_data id_list_def name_list_def
              contact_list_def remove_list_def name_for_def map_of_remove_data map_of_absent)
    next
      case last
      show ?thesis unfolding m nm last
        by (simp add: rewritten_expert_def has_key_remove_data id_list_def name_list_def
              contact_list_def remove_list_def name_for_def map_of_remove_data map_of_absent)
    next
      case email
      show ?thesis unfolding m nm email
        by (simp add: rewritten_expert_def has_key_remove_data id_list_def name_list_def
              contact_list_def remove_list_def contact_for_def map_of_remove_data map_of_absent)
    next
      case phone
      show ?thesis unfolding m nm phone
        by (simp add: rewritten_expert_def has_key_remove_data id_list_def name_list_def
              contact_list_def remove_list_def contact_for_def map_of_remove_data map_of_absent)
    next
      case mobile
      show ?thesis unfolding m nm mobile
        by (simp add: rewritten_expert_def has_key_remove_data id_list_def name_list_def
              contact_list_def remove_list_def contact_for_def map_of_remove_data map_of_absent)
    next
      case other
      then have ne: "k \<noteq> ''Title''" "k \<noteq> ''FirstName''" "k \<noteq> ''LastName''"
        "k \<noteq> ''Email''" "k \<noteq> ''Phone''" "k \<noteq> ''Mobile''" "k \<noteq> ''Id''"
        by (auto simp: id_list_def contact_list_def name_list_def)
      show ?thesis unfolding m nm
        using other ne
        by (simp add: rewritten_expert_def map_of_remove_data map_of_absent)
    qed
  qed
qed

lemma str_fields_iff:
  "str_fields attributes r \<longleftrightarrow> (\<forall>k\<in>set attributes. has_key r k \<longrightarrow> is_str (get r k))"
  by (auto simp: str_fields_def list_all_iff)

lemma get_remove_data: "k \<notin> set remove_list \<Longrightarrow> get (remove_data r) k = get r k"
  by (simp add: get_def map_of_remove_data)

lemma anonymize_name_ok:
  "str_fields list r \<Longrightarrow> \<exists>r'. anonymize_name r list n l f = Inr r'"
  by (cases "anonymize_name r list n l f")
     (auto dest!: anonymize_name_Inl simp: str_fields_iff)

lemma anonymize_contacts_ok:
  "str_fields contact_list r \<Longrightarrow> \<exists>r'. anonymize_contacts r email phone mobile = Inr r'"
  by (cases "anonymize_contacts r email phone mobile")
     (auto dest!: anonymize_contact_attributes_Inl simp: str_fields_iff anonymize_contacts_def)

lemma str_fields_remove_data:
  "set attributes \<inter> set remove_list = {} \<Longrightarrow> str_fields attributes r \<Longrightarrow>
   str_fields attributes (remove_data r)"
  by (auto simp: str_fields_iff has_key_remove_data get_remove_data)

lemma disjoint_lists:
  "set contact_list \<inter> set remove_list = {}" "set works_list \<inter> set remove_list = {}"
  "set name_list \<inter> set remove_list = {}" "set contact_list \<inter> set works_list = {}"
  "set contact_list \<inter> set name_list = {}"
  by (simp_all add: contact_list_def remove_list_def works_list_def name_list_def)

lemma str_fields_after_name:
  assumes "anonymize_name r list n l f = Inr r'" and "str_fields attributes r"
  shows "str_fields attributes r'"
  unfolding str_fields_iff
proof (intro ballI impI)
  fix k assume k: "k \<in> set attributes" and h: "has_key r' k"
  from anonymize_name_Inr[OF assms(1), of k] h have hk: "has_key r k"
    by (auto simp: has_key_def split: if_splits)
  with assms(2) k have "is_str (get r k)" by (auto simp: str_fields_iff)
  with anonymize_name_Inr[OF assms(1), of k] show "is_str (get r' k)"
    by (auto simp: get_def split: if_splits)
qed

lemma random_int_seen: "random_int lo hi g = (v, g') \<Longrightarrow> seen g' = seen g"
  by (auto simp: random_int_def)

lemma unique_retry_Inr:
  "unique_retry n lo hi g = Inr (v, g') \<Longrightarrow> v \<notin> set (seen g) \<and> seen g' = v # seen g"
proof (induction n arbitrary: g)
  case 0
  then show ?case by simp
next
  case (Suc n)
  obtain w g1 where r: "random_int lo hi g = (w, g1)" by (cases "random_int lo hi g")
  then have s: "seen g1 = seen g" by (rule random_int_seen)
  show ?case
  proof (cases "w \<in> set (seen g1)")
    case True
    with Suc.prems r have "unique_retry n lo hi g1 = Inr (v, g')" by simp
    from Suc.IH[OF this] s show ?thesis by simp
  next
    case False
    with Suc.prems r s show ?thesis by auto
  qed
qed

lemma unique_retry_Inl: "unique_retry n lo hi g = Inl e \<Longrightarrow> e = UniquenessException"
  by (induction n arbitrary: g) (auto split: prod.splits if_splits)

lemma new_identity_Inr:
  "new_identity g = Inr (i, g') \<Longrightarrow> fake_id i \<notin> set (seen g) \<and> seen g' = fake_id i # seen g"
  by (auto simp: new_identity_def unique_random_int_def faker_first_name_def faker_last_name_def
        faker_phone_number_def dest!: unique_retry_Inr split: sum.splits prod.splits)

lemma new_identity_Inl: "new_identity g = Inl e \<Longrightarrow> e = UniquenessException"
  by (auto simp: new_identity_def unique_random_int_def dest!: unique_retry_Inl
        split: sum.splits prod.splits)

lemma anonymize_records_Inr:
  "anonymize_records oid i data = Inr data' \<Longrightarrow>
   list_all2 (\<lambda>r r'. anonymize_record oid i r = Inr r') data data'"
  by (induction data arbitrary: data') (auto split: sum.splits)

lemma anonymize_records_Inr_conv:
  "list_all2 (\<lambda>r r'. anonymize_record oid i r = Inr r') data data' \<Longrightarrow>
   anonymize_records oid i data = Inr data'"
  by (induction data data' rule: list_all2_induct) auto

lemma anonymize_records_Inl:
  "anonymize_records oid i data = Inl e \<Longrightarrow> \<exists>r\<in>set data. anonymize_record oid i r = Inl e"
  by (induction data) (auto split: sum.splits)

lemma anonymize_experts_Cons_Inr:
  assumes "anonymize_experts g (ex # es) data = Inr (es', data'')"
  obtains oid i g' data' ex' rest' where
    "map_of ex ''Id'' = Some oid" "new_identity g = Inr (i, g')"
    "anonymize_records oid i data = Inr data'"
    "anonymize_expert i (remove_data ex) = Inr ex'"
    "anonymize_experts g' es data' = Inr (rest', data'')" "es' = ex' # rest'"
  using assms
  by (auto simp: getitem_def split: sum.splits option.splits prod.splits)

lemma clean_iff: "clean r \<longleftrightarrow> (\<forall>a\<in>set remove_list. map_of r a = None)"
  by (simp add: clean_def list_all_iff has_key_def)

lemma rewritten_work_clean: "map_of r' = rewritten_work i r \<Longrightarrow> clean r'"
  by (simp add: clean_iff rewritten_work_def)

lemma rewritten_expert_clean: "map_of r' = rewritten_expert i r \<Longrightarrow> clean r'"
  by (simp add: clean_iff rewritten_expert_def)

lemma rewritten_work_ExpertId:
  "map_of r' = rewritten_work i r \<Longrightarrow> has_key r ''ExpertId'' \<Longrightarrow>
   get r' ''ExpertId'' = JNum (fake_id i)"
  by (simp add: get_def rewritten_work_def remove_list_def)

lemma rewritten_expert_Id:
  "map_of r' = rewritten_expert i r \<Longrightarrow> has_key r ''Id'' \<Longrightarrow>
   get r' ''Id'' = JNum (fake_id i)"
  by (simp add: get_def rewritten_expert_def remove_list_def)

lemma anonymize_record_Inr:
  assumes "anonymize_record oid i r = Inr r'"
  shows "has_key r ''ExpertId''"
    and "py_eq oid (get r ''ExpertId'') \<Longrightarrow> map_of r' = rewritten_work i r"
    and "\<not> py_eq oid (get r ''ExpertId'') \<Longrightarrow> r' = r"
proof -
  from assms obtain v where v: "map_of r ''ExpertId'' = Some v"
    by (auto simp: anonymize_record_def getitem_def split: option.splits)
  then show "has_key r ''ExpertId''" by (simp add: has_key_def)
  from v have g: "get r ''ExpertId'' = v" by (simp add: get_def)
  show "py_eq oid (get r ''ExpertId'') \<Longrightarrow> map_of r' = rewritten_work i r"
    using anonymize_record_matched[OF v _ assms] g by simp
  show "\<not> py_eq oid (get r ''ExpertId'') \<Longrightarrow> r' = r"
    using anonymize_record_unmatched[OF v, of oid i] assms g by simp
qed

lemma anonymize_experts_length:
  "anonymize_experts g es data = Inr (es', data') \<Longrightarrow>
   length es' = length es \<and> length data' = length data"
proof (induction es arbitrary: g data es' data')
  case Nil
  then show ?case by simp
next
  case (Cons ex es)
  from Cons.prems obtain oid i g' data1 ex' rest' where
    s: "anonymize_records oid i data = Inr data1"
      "anonymize_experts g' es data1 = Inr (rest', data')" "es' = ex' # rest'"
    by (rule anonymize_experts_Cons_Inr)
  from Cons.IH[OF s(2)] anonymize_records_Inr[OF s(1)] s(3) show ?case
    by (auto dest: list_all2_lengthD)
qed

lemma anonymize_experts_clean:
  "anonymize_experts g es data = Inr (es', data') \<Longrightarrow>
   list_all clean es' \<and>
   list_all2 (\<lambda>r r'. if list_ex (\<lambda>e. matches e r) es then clean r' else r' = r) data data'"
proof (induction es arbitrary: g data es' data')
  case Nil
  then show ?case by (simp add: list_all2_same)
next
  case (Cons ex es)
  from Cons.prems obtain oid i g' data1 ex' rest' where
    s: "map_of ex ''Id'' = Some oid" "new_identity g = Inr (i, g')"
      "anonymize_records oid i data = Inr data1"
      "anonymize_expert i (remove_data ex) = Inr ex'"
      "anonymize_experts g' es data1 = Inr (rest', data')" "es' = ex' # rest'"
    by (rule anonymize_experts_Cons_Inr)
  from s(1) have oid: "get ex ''Id'' = oid" by (simp add: get_def)
  from Cons.IH[OF s(5)] have
    ih1: "list_all clean rest'" and
    ih2: "list_all2 (\<lambda>r r'. if list_ex (\<lambda>e. matches e r) es then clean r' else r' = r)
            data1 data'"
    by simp_all
  have c: "clean ex'"
    using anonymize_expert_rewritten[OF s(4)] by (rule rewritten_expert_clean)
  have "list_all2 (\<lambda>r r'. if list_ex (\<lambda>e. matches e r) (ex # es) then clean r' else r' = r)
          data data'"
  proof (rule list_all2_trans[OF _ anonymize_records_Inr[OF s(3)] ih2])
    fix r r1 r'
    assume a: "anonymize_record oid i r = Inr r1"
      and b: "if list_ex (\<lambda>e. matches e r1) es then clean r' else r' = r1"
    show "if list_ex (\<lambda>e. matches e r) (ex # es) then clean r' else r' = r"
    proof (cases "matches ex r")
      case True
      then have "clean r1"
        using anonymize_record_Inr(2)[OF a] oid
        by (auto simp: matches_def intro: rewritten_work_clean)
      with b True show ?thesis by (auto split: if_splits)
    next
      case False
      then have "r1 = r" using anonymize_record_Inr(3)[OF a] oid by (simp add: matches_def)
      with b False show ?thesis by simp
    qed
  qed
  with c ih1 s(6) show ?case by simp
qed

section \<open>The anonymizer on whole files\<close>

lemma unique_random_int_fresh:
  assumes "random_int lo hi g = (v, g')" and "v \<notin> set (seen g')"
  shows "unique_random_int lo hi g = Inr (v, g'\<lparr>seen := v # seen g'\<rparr>)"
proof -
  have ua: "unique_attempts = Suc 999" by (simp add: unique_attempts_def)
  show ?thesis unfolding unique_random_int_def ua
    by (subst unique_retry.simps(2)) (simp add: assms)
qed

lemma new_identity_counting:
  "111111 + int n mod 888889 \<notin> set s \<Longrightarrow>
   new_identity (counting_faker\<lparr>draws := n, seen := s\<rparr>) =
     Inr (\<lparr>fake_id = 111111 + int n mod 888889, fake_name = ''Ann'',
            fake_last_name = ''Lee'', fake_phone = ''555'', fake_mobile = ''555''\<rparr>,
          counting_faker\<lparr>draws := n + 5, seen := (111111 + int n mod 888889) # s\<rparr>)"
  by (simp add: new_identity_def counting_faker_def faker_first_name_def faker_last_name_def
       faker_phone_number_def
       unique_random_int_fresh[where v="111111 + int n mod 888889"
          and g'="counting_faker\<lparr>draws := Suc n, seen := s\<rparr>", unfolded counting_faker_def]
       random_int_def)

lemma counting_faker_start: "counting_faker = counting_faker\<lparr>draws := 0, seen := []\<rparr>"
  by (simp add: counting_faker_def)

lemma demo_run:
  "anonymize_experts counting_faker demo_experts demo_data =
     Inr (demo_experts_cleaned, demo_works_cleaned)"
  apply (subst counting_faker_start)
  apply (simp add: demo_experts_def demo_data_def new_identity_counting getitem_def
      anonymize_record_def anonymize_expert_def anonymize_contacts_def remove_data_def
      remove_list_def name_list_def works_list_def contact_list_def id_list_def works_id_list_def
      has_key_def get_def fake_full_name_def fake_email_def lower_def lower_char_def
      ascii_lowercase_def ascii_uppercase_def demo_experts_cleaned_def demo_works_cleaned_def)
  done

lemma demo_files_lookup:
  "demo_files (data_path ''original_data.json'') = Some demo_data"
  "demo_files (data_path ''experts.json'') = Some demo_experts"
  by (simp_all add: demo_files_def data_path_def)

lemma demo_anonymize_data:
  "anonymize_data counting_faker demo_files =
     (Inr (), demo_files(data_path ''works_cleaned.json'' \<mapsto> demo_works_cleaned,
                         data_path ''experts_cleaned.json'' \<mapsto> demo_experts_cleaned))"
  by (simp add: anonymize_data_def load_json_def demo_files_lookup demo_run save_json_def)

lemma anonymize_data_Inr:
  assumes "fs (data_path ''original_data.json'') = Some data"
    and "fs (data_path ''experts.json'') = Some experts"
    and "anonymize_data fake fs = (Inr (), fs')"
  obtains experts' works' where
    "anonymize_experts fake experts data = Inr (experts', works')"
    "fs' (data_path ''experts_cleaned.json'') = Some experts'"
    "fs' (data_path ''works_cleaned.json'') = Some works'"
  using assms
  by (auto simp: anonymize_data_def load_json_def save_json_def data_path_def
        split: sum.splits)

text \<open>
  Claim C3, as amended. When \<^verbatim>\<open>anonymize_data\<close> returns, no name of the remove list
  is a field of any record written to \<^verbatim>\<open>experts_cleaned.json\<close>, nor of any record
  written to \<^verbatim>\<open>works_cleaned.json\<close> whose original \<^verbatim>\<open>ExpertId\<close> equals the original
  \<^verbatim>\<open>Id\<close> of some expert; a work or output that matches no expert is written as it
  was read, remove-list fields included.
\<close>

theorem anonymize_data_removes_fields:
  assumes "fs (data_path ''original_data.json'') = Some data"
    and "fs (data_path ''experts.json'') = Some experts"
    and "anonymize_data fake fs = (Inr (), fs')"
  shows "\<exists>experts' works'.
     fs' (data_path ''experts_cleaned.json'') = Some experts' \<and>
     fs' (data_path ''works_cleaned.json'') = Some works' \<and>
     list_all clean experts' \<and>
     list_all2 (\<lambda>r r'. if list_ex (\<lambda>e. matches e r) experts then clean r' else r' = r)
       data works'"
proof -
  from assms obtain experts' works' where
    r: "anonymize_experts fake experts data = Inr (experts', works')" and
    f: "fs' (data_path ''experts_cleaned.json'') = Some experts'"
       "fs' (data_path ''works_cleaned.json'') = Some works'"
    by (rule anonymize_data_Inr)
  from anonymize_experts_clean[OF r] f show ?thesis by blast
qed

text \<open>Witness for C3: the example run.\<close>

theorem anonymize_data_removes_fields_witness:
  "\<exists>experts' works'.
     snd (anonymize_data counting_faker demo_files) (data_path ''experts_cleaned.json'')
       = Some experts' \<and>
     snd (anonymize_data counting_faker demo_files) (data_path ''works_cleaned.json'')
       = Some works' \<and>
     list_all clean experts' \<and>
     list_all2 (\<lambda>r r'. if list_ex (\<lambda>e. matches e r) demo_experts then clean r' else r' = r)
       demo_data works'"
  using anonymize_data_removes_fields
    [OF demo_files_lookup(1) demo_files_lookup(2), of counting_faker
       "snd (anonymize_data counting_faker demo_files)"]
  by (simp add: demo_anonymize_data)

text \<open>
  Counterexample to C3 as stated: the second record of the example matches no expert
  and is written to \<^verbatim>\<open>works_cleaned.json\<close> with its \<^verbatim>\<open>Photo\<close> field.
\<close>

theorem unmatched_work_keeps_photo:
  "snd (anonymize_data counting_faker demo_files) (data_path ''works_cleaned.json'')
     = Some demo_works_cleaned \<and>
   \<not> list_ex (\<lambda>e. matches e (demo_data ! 1)) demo_experts \<and>
   ''Photo'' \<in> set remove_list \<and>
   has_key (demo_works_cleaned ! 1) ''Photo''"
  by (simp add: demo_anonymize_data data_path_def demo_works_cleaned_def demo_data_def
        demo_experts_def matches_def get_def has_key_def remove_list_def)

lemma anonymize_experts_ids:
  "anonymize_experts g es data = Inr (es', data') \<Longrightarrow>
   \<exists>ids. map (\<lambda>e. get e ''Id'') es' = map JNum ids \<and> distinct ids \<and>
         set ids \<inter> set (seen g) = {}"
proof (induction es arbitrary: g data es' data')
  case Nil
  then show ?case by simp
next
  case (Cons ex es)
  from Cons.prems obtain oid i g' data1 ex' rest' where
    s: "map_of ex ''Id'' = Some oid" "new_identity g = Inr (i, g')"
      "anonymize_records oid i data = Inr data1"
      "anonymize_expert i (remove_data ex) = Inr ex'"
      "anonymize_experts g' es data1 = Inr (rest', data')" "es' = ex' # rest'"
    by (rule anonymize_experts_Cons_Inr)
  from s(1) have hk: "has_key ex ''Id''" by (simp add: has_key_def)
  have id': "get ex' ''Id'' = JNum (fake_id i)"
    using anonymize_expert_rewritten[OF s(4)] hk by (rule rewritten_expert_Id)
  from new_identity_Inr[OF s(2)] have
    fresh: "fake_id i \<notin> set (seen g)" and seen': "seen g' = fake_id i # seen g"
    by simp_all
  from Cons.IH[OF s(5)] obtain ids where
    ids: "map (\<lambda>e. get e ''Id'') rest' = map JNum ids" "distinct ids"
      "set ids \<inter> set (seen g') = {}"
    by blast
  have "map (\<lambda>e. get e ''Id'') es' = map JNum (fake_id i # ids)"
    using s(6) id' ids(1) by simp
  moreover have "distinct (fake_id i # ids)" using ids(2,3) seen' by auto
  moreover have "set (fake_id i # ids) \<inter> set (seen g) = {}"
    using ids(3) seen' fresh by auto
  ultimately show ?case by blast
qed

text \<open>
  Claim C6. When \<^verbatim>\<open>anonymize_data\<close> returns, \<^verbatim>\<open>experts_cleaned.json\<close> holds one
  record for each expert read, the \<^verbatim>\<open>Id\<close> of each is a generated integer, and these
  ids are pairwise distinct, whatever the generator's raw draws are.
\<close>

theorem anonymize_data_unique_ids:
  assumes "fs (data_path ''original_data.json'') = Some data"
    and "fs (data_path ''experts.json'') = Some experts"
    and "anonymize_data fake fs = (Inr (), fs')"
  shows "\<exists>experts' ids.
     fs' (data_path ''experts_cleaned.json'') = Some experts' \<and>
     length experts' = length experts \<and>
     map (\<lambda>e. get e ''Id'') experts' = map JNum ids \<and> distinct ids \<and>
     distinct (map (\<lambda>e. get e ''Id'') experts')"
proof -
  from assms obtain experts' works' where
    r: "anonymize_experts fake experts data = Inr (experts', works')" and
    f: "fs' (data_path ''experts_cleaned.json'') = Some experts'"
    by (rule anonymize_data_Inr)
  from anonymize_experts_ids[OF r] obtain ids where
    ids: "map (\<lambda>e. get e ''Id'') experts' = map JNum ids" "distinct ids"
    by blast
  have "distinct (map JNum ids)" using ids(2) by (simp add: distinct_map inj_on_def)
  with ids f anonymize_experts_length[OF r] show ?thesis by auto
qed

text \<open>Witness for C6: the example run.\<close>

theorem anonymize_data_unique_ids_witness:
  "\<exists>experts' ids.
     snd (anonymize_data counting_faker demo_files) (data_path ''experts_cleaned.json'')
       = Some experts' \<and>
     length experts' = length demo_experts \<and>
     map (\<lambda>e. get e ''Id'') experts' = map JNum ids \<and> distinct ids \<and>
     distinct (map (\<lambda>e. get e ''Id'') experts')"
  by (rule anonymize_data_unique_ids[OF demo_files_lookup(1) demo_files_lookup(2),
        where fake = counting_faker and fs' = "snd (anonymize_data counting_faker demo_files)"])
     (simp add: demo_anonymize_data)

section \<open>When the anonymizer raises\<close>

lemma str_fields_append:
  "str_fields (a @ b) r \<longleftrightarrow> str_fields a r \<and> str_fields b r"
  by (simp add: str_fields_def)

lemma anonymize_record_KeyError:
  "\<not> has_key r ''ExpertId'' \<Longrightarrow> anonymize_record oid i r = Inl KeyError"
  by (simp add: anonymize_record_def getitem_def has_key_def)

lemma anonymize_record_Inl:
  "anonymize_record oid i r = Inl e \<Longrightarrow> e = KeyError \<or> e = AttributeError"
  by (auto simp: anonymize_record_def getitem_def anonymize_contacts_def
        dest!: anonymize_name_Inl anonymize_contact_attributes_Inl
        split: option.splits if_splits sum.splits)

lemma anonymize_expert_Inl: "anonymize_expert i r = Inl e \<Longrightarrow> e = AttributeError"
  by (auto simp: anonymize_expert_def anonymize_contacts_def
        dest!: anonymize_name_Inl anonymize_contact_attributes_Inl split: sum.splits)

lemma rewritten_work_str_fields:
  "map_of r' = rewritten_work i r \<Longrightarrow> str_fields (works_list @ contact_list) r'"
  by (simp add: str_fields_def works_list_def contact_list_def has_key_def get_def
        rewritten_work_def remove_list_def)

lemma rewritten_work_has_ExpertId:
  "map_of r' = rewritten_work i r \<Longrightarrow> has_key r ''ExpertId'' \<Longrightarrow> has_key r' ''ExpertId''"
  by (simp add: has_key_def rewritten_work_def remove_list_def)

lemma anonymize_record_ok:
  assumes "has_key r ''ExpertId''" and "str_fields (works_list @ contact_list) r"
  shows "\<exists>r'. anonymize_record oid i r = Inr r' \<and> has_key r' ''ExpertId'' \<and>
              str_fields (works_list @ contact_list) r'"
proof (cases "py_eq oid (get r ''ExpertId'')")
  case False
  with assms show ?thesis
    by (auto simp: anonymize_record_def getitem_def has_key_def get_def)
next
  case True
  from assms(2) have w: "str_fields works_list r" and c: "str_fields contact_list r"
    by (simp_all add: str_fields_append)
  from anonymize_name_ok[OF str_fields_remove_data[OF disjoint_lists(2) w]]
  obtain named where
    n: "anonymize_name (remove_data r) works_list (fake_name i) (fake_last_name i)
          (fake_full_name i) = Inr named"
    by blast
  have "str_fields contact_list named"
    by (rule str_fields_after_name[OF n str_fields_remove_data[OF disjoint_lists(1) c]])
  from anonymize_contacts_ok[OF this] obtain contacted where
    "anonymize_contacts named (fake_email i) (fake_phone i) (fake_mobile i) = Inr contacted"
    by blast
  with n True assms(1) obtain r' where r': "anonymize_record oid i r = Inr r'"
    by (auto simp: anonymize_record_def getitem_def has_key_def get_def)
  from anonymize_record_Inr(2)[OF r' True] have "map_of r' = rewritten_work i r" .
  with r' assms(1) show ?thesis
    by (auto intro: rewritten_work_str_fields rewritten_work_has_ExpertId)
qed

lemma anonymize_expert_ok:
  assumes "str_fields (name_list @ contact_list) ex"
  shows "\<exists>ex'. anonymize_expert i (remove_data ex) = Inr ex'"
proof -
  from assms have w: "str_fields name_list ex" and c: "str_fields contact_list ex"
    by (simp_all add: str_fields_append)
  from anonymize_name_ok[OF str_fields_remove_data[OF disjoint_lists(3) w]]
  obtain named where
    n: "anonymize_name (remove_data ex) name_list (fake_name i) (fake_last_name i)
          (fake_full_name i) = Inr named"
    by blast
  have "str_fields contact_list named"
    by (rule str_fields_after_name[OF n str_fields_remove_data[OF disjoint_lists(1) c]])
  from anonymize_contacts_ok[OF this] obtain contacted where
    "anonymize_contacts named (fake_email i) (fake_phone i) (fake_mobile i) = Inr contacted"
    by blast
  with n show ?thesis by (simp add: anonymize_expert_def)
qed

lemma anonymize_records_outcome:
  assumes "list_all (str_fields (works_list @ contact_list)) data"
  shows "if list_all (\<lambda>r. has_key r ''ExpertId'') data
         then \<exists>data'. anonymize_records oid i data = Inr data' \<and>
                list_all (\<lambda>r. has_key r ''ExpertId'') data' \<and>
                list_all (str_fields (works_list @ contact_list)) data'
         else anonymize_records oid i data = Inl KeyError"
  using assms
proof (induction data)
  case Nil
  then show ?case by simp
next
  case (Cons r data)
  show ?case
  proof (cases "has_key r ''ExpertId''")
    case False
    then show ?thesis by (simp add: anonymize_record_KeyError)
  next
    case True
    from Cons.prems have sr: "str_fields (works_list @ contact_list) r"
      and sd: "list_all (str_fields (works_list @ contact_list)) data"
      by simp_all
    from anonymize_record_ok[OF True sr, of oid i] obtain r' where
      r': "anonymize_record oid i r = Inr r'" "has_key r' ''ExpertId''"
        "str_fields (works_list @ contact_list) r'"
      by blast
    from Cons.IH[OF sd] True r' show ?thesis by (auto split: if_splits)
  qed
qed

lemma anonymize_records_Inr_has_ExpertId:
  "anonymize_records oid i data = Inr data' \<Longrightarrow> list_all (\<lambda>r. has_key r ''ExpertId'') data"
  by (induction data arbitrary: data')
     (auto split: sum.splits dest: anonymize_record_Inr(1))

lemma anonymize_experts_Inr_ids_present:
  "anonymize_experts g es data = Inr (es', data') \<Longrightarrow> ids_present es data"
proof (induction es arbitrary: g data es' data')
  case Nil
  then show ?case by (simp add: ids_present_def)
next
  case (Cons ex es)
  from Cons.prems obtain oid i g' data1 ex' rest' where
    s: "map_of ex ''Id'' = Some oid"
      "anonymize_records oid i data = Inr data1"
      "anonymize_experts g' es data1 = Inr (rest', data')"
    by (rule anonymize_experts_Cons_Inr)
  have "list_all (\<lambda>r. has_key r ''ExpertId'') data"
    by (rule anonymize_records_Inr_has_ExpertId[OF s(2)])
  with Cons.IH[OF s(3)] s(1) show ?case by (simp add: ids_present_def has_key_def)
qed

lemma anonymize_experts_Inl:
  "anonymize_experts g es data = Inl e \<Longrightarrow>
   e = KeyError \<or> e = AttributeError \<or> e = UniquenessException"
proof (induction es arbitrary: g data)
  case Nil
  then show ?case by simp
next
  case (Cons ex es)
  then show ?case
    by (auto simp: getitem_def split: option.splits sum.splits prod.splits
          dest!: new_identity_Inl anonymize_records_Inl anonymize_record_Inl
            anonymize_expert_Inl)
qed

lemma anonymize_experts_outcome:
  assumes "list_all (str_fields (name_list @ contact_list)) es"
    and "list_all (str_fields (works_list @ contact_list)) data"
    and "supplies g (length es)"
  shows "if ids_present es data
         then \<exists>es' data'. anonymize_experts g es data = Inr (es', data')
         else anonymize_experts g es data = Inl KeyError"
  using assms
proof (induction es arbitrary: g data)
  case Nil
  then show ?case by (simp add: ids_present_def)
next
  case (Cons ex es)
  show ?case
  proof (cases "has_key ex ''Id''")
    case False
    then show ?thesis by (simp add: ids_present_def getitem_def has_key_def)
  next
    case True
    then obtain oid where oid: "map_of ex ''Id'' = Some oid" by (auto simp: has_key_def)
    from Cons.prems(3) obtain i g' where
      ni: "new_identity g = Inr (i, g')" and su: "supplies g' (length es)"
      by (auto split: sum.splits)
    from Cons.prems(1) have sx: "str_fields (name_list @ contact_list) ex"
      and ss: "list_all (str_fields (name_list @ contact_list)) es"
      by simp_all
    show ?thesis
    proof (cases "list_all (\<lambda>r. has_key r ''ExpertId'') data")
      case False
      with anonymize_records_outcome[OF Cons.prems(2), of oid i]
      have "anonymize_records oid i data = Inl KeyError" by simp
      with oid ni False show ?thesis by (simp add: getitem_def ids_present_def)
    next
      case all: True
      with anonymize_records_outcome[OF Cons.prems(2), of oid i] obtain data1 where
        d1: "anonymize_records oid i data = Inr data1"
          "list_all (\<lambda>r. has_key r ''ExpertId'') data1"
          "list_all (str_fields (works_list @ contact_list)) data1"
        by auto
      from anonymize_expert_ok[OF sx, of i] obtain ex' where
        ex': "anonymize_expert i (remove_data ex) = Inr ex'"
        by blast
      have eq: "ids_present (ex # es) data = ids_present es data1"
        using True all d1(2) by (auto simp: ids_present_def)
      from Cons.IH[OF ss d1(3) su] oid ni d1(1) ex' show ?thesis
        unfolding eq by (auto simp: getitem_def split: if_splits)
    qed
  qed
qed

lemma anonymize_data_result:
  assumes "fs (data_path ''original_data.json'') = Some data"
    and "fs (data_path ''experts.json'') = Some experts"
  shows "anonymize_data fake fs =
     (case anonymize_experts fake experts data of
        Inl e \<Rightarrow> (Inl e, fs)
      | Inr (experts', data') \<Rightarrow>
          (Inr (), fs(data_path ''works_cleaned.json'' \<mapsto> data',
                      data_path ''experts_cleaned.json'' \<mapsto> experts')))"
  using assms by (simp add: anonymize_data_def load_json_def save_json_def split: sum.splits)

text \<open>
  Claim C10, as amended. \<^verbatim>\<open>anonymize_data\<close> returns normally only if every expert
  record has the field \<^verbatim>\<open>Id\<close> and, unless there are no experts, every record of the
  works and outputs has the field \<^verbatim>\<open>ExpertId\<close>; otherwise it raises. Whenever it
  raises, the exception is \<^verbatim>\<open>KeyError\<close>, \<^verbatim>\<open>AttributeError\<close> or the generator's
  \<^verbatim>\<open>UniquenessException\<close>, and neither output file is written. When every name and
  contact field that is present holds a string and the generator supplies an identity
  for each expert, the run returns normally if the fields are present and raises
  \<^verbatim>\<open>KeyError\<close> if not.
\<close>

theorem anonymize_data_key_errors:
  assumes "fs (data_path ''original_data.json'') = Some data"
    and "fs (data_path ''experts.json'') = Some experts"
  shows "(fst (anonymize_data fake fs) = Inr () \<longrightarrow> ids_present experts data) \<and>
     (\<forall>e. fst (anonymize_data fake fs) = Inl e \<longrightarrow>
        (e = KeyError \<or> e = AttributeError \<or> e = UniquenessException) \<and>
        snd (anonymize_data fake fs) = fs) \<and>
     (string_fields experts data \<and> supplies fake (length experts) \<longrightarrow>
        fst (anonymize_data fake fs) =
          (if ids_present experts data then Inr () else Inl KeyError))"
proof (intro conjI allI impI)
  assume "fst (anonymize_data fake fs) = Inr ()"
  then show "ids_present experts data"
    unfolding anonymize_data_result[OF assms]
    by (auto split: sum.splits dest: anonymize_experts_Inr_ids_present)
next
  fix e assume e: "fst (anonymize_data fake fs) = Inl e"
  then show "e = KeyError \<or> e = AttributeError \<or> e = UniquenessException"
    unfolding anonymize_data_result[OF assms]
    by (auto split: sum.splits dest: anonymize_experts_Inl)
  from e show "snd (anonymize_data fake fs) = fs"
    unfolding anonymize_data_result[OF assms] by (auto split: sum.splits)
next
  assume "string_fields experts data \<and> supplies fake (length experts)"
  then have "if ids_present experts data
         then \<exists>es' data'. anonymize_experts fake experts data = Inr (es', data')
         else anonymize_experts fake experts data = Inl KeyError"
    by (intro anonymize_experts_outcome) (simp_all add: string_fields_def)
  then show "fst (anonymize_data fake fs) =
      (if ids_present experts data then Inr () else Inl KeyError)"
    unfolding anonymize_data_result[OF assms] by (auto split: if_splits)
qed

lemma nameless_files_lookup:
  "nameless_files (data_path ''original_data.json'') = Some []"
  "nameless_files (data_path ''experts.json'') = Some [[(''Title'', JStr ''Dr Eve Roe'')]]"
  by (simp_all add: nameless_files_def data_path_def)

lemma demo_ids_present: "ids_present demo_experts demo_data"
  by (simp add: ids_present_def demo_experts_def demo_data_def has_key_def)

lemma demo_string_fields: "string_fields demo_experts demo_data"
  by (simp add: string_fields_def str_fields_def demo_experts_def demo_data_def has_key_def
        get_def name_list_def contact_list_def works_list_def)

lemma demo_supplies: "supplies counting_faker (length demo_experts)"
  apply (subst counting_faker_start)
  apply (simp add: demo_experts_def new_identity_counting)
  done

lemma nameless_supplies: "supplies counting_faker (length [[(''Title'', JStr ''Dr Eve Roe'')]])"
  apply (subst counting_faker_start)
  apply (simp add: new_identity_counting)
  done

lemma nameless_string_fields: "string_fields [[(''Title'', JStr ''Dr Eve Roe'')]] []"
  by (simp add: string_fields_def str_fields_def has_key_def
        get_def name_list_def contact_list_def works_list_def)

text \<open>
  Witness for C10: the example run returns normally, and a run on an expert without
  \<^verbatim>\<open>Id\<close> raises \<^verbatim>\<open>KeyError\<close> and leaves the files as they were.
\<close>

theorem anonymize_data_key_errors_witness:
  "ids_present demo_experts demo_data \<and>
   string_fields demo_experts demo_data \<and>
   supplies counting_faker (length demo_experts) \<and>
   fst (anonymize_data counting_faker demo_files) = Inr () \<and>
   \<not> ids_present [[(''Title'', JStr ''Dr Eve Roe'')]] [] \<and>
   fst (anonymize_data counting_faker nameless_files) = Inl KeyError \<and>
   snd (anonymize_data counting_faker nameless_files) = nameless_files"
proof -
  have n: "\<not> ids_present [[(''Title'', JStr ''Dr Eve Roe'')]] []"
    by (simp add: ids_present_def has_key_def)
  from anonymize_data_key_errors[OF demo_files_lookup, of counting_faker]
    demo_ids_present demo_string_fields demo_supplies
  have a: "fst (anonymize_data counting_faker demo_files) = Inr ()" by simp
  from anonymize_data_key_errors[OF nameless_files_lookup, of counting_faker]
    n nameless_string_fields nameless_supplies
  have b: "fst (anonymize_data counting_faker nameless_files) = Inl KeyError"
    and c: "snd (anonymize_data counting_faker nameless_files) = nameless_files"
    by simp_all
  from a b c n demo_ids_present demo_string_fields demo_supplies show ?thesis by simp
qed

text \<open>
  Counterexample to C10 as stated: with no experts, a record without \<^verbatim>\<open>ExpertId\<close>
  raises nothing; the run returns normally and writes both files.
\<close>

theorem no_experts_no_key_error:
  "\<not> has_key [(''Owner'', JStr ''Sam Poe'')] ''ExpertId'' \<and>
   anonymize_data counting_faker orphan_files =
     (Inr (), orphan_files(data_path ''works_cleaned.json'' \<mapsto> [[(''Owner'', JStr ''Sam Poe'')]],
                           data_path ''experts_cleaned.json'' \<mapsto> []))"
  by (simp add: anonymize_data_def load_json_def save_json_def orphan_files_def data_path_def
        has_key_def)

section \<open>One identity for an expert and its works\<close>

lemma assigned_none: "list_all (\<lambda>e. \<not> matches e r) es \<Longrightarrow> assigned es ids r = None"
  by (induction es ids r rule: assigned.induct) auto

lemma first_match_Cons:
  "first_match (e # es) j r \<longleftrightarrow>
     (j = 0 \<and> matches e r \<or> (\<exists>j0. j = Suc j0 \<and> \<not> matches e r \<and> first_match es j0 r))"
  by (cases j) (auto simp: first_match_def)

lemma assigned_first_match:
  "first_match es j r \<Longrightarrow> length ids = length es \<Longrightarrow> assigned es ids r = Some (ids ! j)"
proof (induction es ids r arbitrary: j rule: assigned.induct)
  case (1 e es i ids r)
  then show ?case by (auto simp: first_match_Cons)
qed (auto simp: first_match_def)



lemma collision_free_filter:
  "(\<And>r. list_ex (\<lambda>e. matches e r) es \<Longrightarrow> P r) \<Longrightarrow>
   collision_free es ids (filter P data) = collision_free es ids data"
proof (induction es ids data arbitrary: P rule: collision_free.induct)
  case (1 e es i ids data)
  have m: "list_ex (matches e) (filter P data) = list_ex (matches e) data"
    using "1.prems" by (auto simp: list_ex_iff)
  have "collision_free es ids (filter (\<lambda>r. \<not> matches e r) (filter P data))
      = collision_free es ids (filter P (filter (\<lambda>r. \<not> matches e r) data))"
    by (simp add: conj_commute)
  also have "\<dots> = collision_free es ids (filter (\<lambda>r. \<not> matches e r) data)"
    using "1.prems" by (intro "1.IH") simp
  finally show ?case using m by simp
qed simp_all

lemma filter_after_step:
  assumes "list_all2 (\<lambda>r r1. if m r then \<not> P r1 else r1 = r) data data1"
  shows "filter P data1 = filter P (filter (\<lambda>r. \<not> m r) data)"
  using assms by (induction data data1 rule: list_all2_induct) auto

lemma list_all2_mem:
  "list_all2 Q xs ys \<Longrightarrow> list_all2 (\<lambda>x y. x \<in> set xs \<and> Q x y) xs ys"
  by (auto simp: list_all2_conv_all_nth)

lemma anonymize_experts_first_match:
  "anonymize_experts g es data = Inr (es', data') \<Longrightarrow>
   collision_free es (identities g (length es)) data \<Longrightarrow>
   list_all2 (\<lambda>r r'. case assigned es (identities g (length es)) r of
                        None \<Rightarrow> r' = r
                      | Some i \<Rightarrow> map_of r' = rewritten_work i r) data data'"
proof (induction es arbitrary: g data es' data')
  case Nil
  then show ?case by (simp add: list_all2_same)
next
  case (Cons ex es)
  from Cons.prems(1) obtain oid i g' data1 ex' rest' where
    s: "map_of ex ''Id'' = Some oid" "new_identity g = Inr (i, g')"
      "anonymize_records oid i data = Inr data1"
      "anonymize_expert i (remove_data ex) = Inr ex'"
      "anonymize_experts g' es data1 = Inr (rest', data')" "es' = ex' # rest'"
    by (rule anonymize_experts_Cons_Inr)
  from s(1) have oid: "get ex ''Id'' = oid" by (simp add: get_def)
  let ?ids = "identities g' (length es)"
  have ids: "identities g (length (ex # es)) = i # ?ids"
    using s(2) by simp
  from Cons.prems(2) have
    a: "list_ex (matches ex) data \<Longrightarrow>
        list_all (\<lambda>e'. \<not> py_eq (get e' ''Id'') (JNum (fake_id i))) es" and
    b: "collision_free es ?ids (filter (\<lambda>r. \<not> matches ex r) data)"
    unfolding ids by auto
  note step = list_all2_mem[OF anonymize_records_Inr[OF s(3)]]
  have rewritten: "list_all (\<lambda>e. \<not> matches e r1) es"
    if "r \<in> set data" "matches ex r" "anonymize_record oid i r = Inr r1" for r r1
  proof -
    from that(2,3) have "map_of r1 = rewritten_work i r"
      using anonymize_record_Inr(2)[OF that(3)] oid by (simp add: matches_def)
    then have "get r1 ''ExpertId'' = JNum (fake_id i)"
      using anonymize_record_Inr(1)[OF that(3)] by (rule rewritten_work_ExpertId)
    moreover from that(1,2) have "list_ex (matches ex) data" by (auto simp: list_ex_iff)
    ultimately show ?thesis using a by (simp add: matches_def)
  qed
  have unchanged: "r1 = r" if "\<not> matches ex r" "anonymize_record oid i r = Inr r1" for r r1
    using anonymize_record_Inr(3)[OF that(2)] that(1) oid by (simp add: matches_def)
  have "list_all2 (\<lambda>r r1. if matches ex r then \<not> list_ex (\<lambda>e. matches e r1) es else r1 = r)
          data data1"
    using step
    by (rule list_all2_mono) (auto dest: rewritten unchanged simp: list_all_iff list_ex_iff)
  from filter_after_step[OF this] have
    fa: "filter (\<lambda>r. list_ex (\<lambda>e. matches e r) es) data1
       = filter (\<lambda>r. list_ex (\<lambda>e. matches e r) es) (filter (\<lambda>r. \<not> matches ex r) data)" .
  have e1: "collision_free es ?ids data1
      = collision_free es ?ids (filter (\<lambda>r. list_ex (\<lambda>e. matches e r) es) data1)"
    by (rule collision_free_filter[symmetric])
  have e2: "collision_free es ?ids
        (filter (\<lambda>r. list_ex (\<lambda>e. matches e r) es) (filter (\<lambda>r. \<not> matches ex r) data))
      = collision_free es ?ids (filter (\<lambda>r. \<not> matches ex r) data)"
    by (rule collision_free_filter)
  have cf: "collision_free es ?ids data1"
    unfolding e1 fa e2 by (rule b)
  show ?case unfolding ids
  proof (rule list_all2_trans[OF _ step Cons.IH[OF s(5) cf]])
    fix r r1 r'
    assume a1: "r \<in> set data \<and> anonymize_record oid i r = Inr r1"
      and b1: "case assigned es ?ids r1 of
                None \<Rightarrow> r' = r1 | Some i \<Rightarrow> map_of r' = rewritten_work i r1"
    show "case assigned (ex # es) (i # ?ids) r of
            None \<Rightarrow> r' = r | Some i \<Rightarrow> map_of r' = rewritten_work i r"
    proof (cases "matches ex r")
      case True
      with a1 have m: "map_of r1 = rewritten_work i r"
        using anonymize_record_Inr(2)[of oid i r r1] oid by (simp add: matches_def)
      from rewritten[of r r1] True a1 have "list_all (\<lambda>e. \<not> matches e r1) es" by simp
      then have "assigned es ?ids r1 = None" by (rule assigned_none)
      with b1 m True show ?thesis by simp
    next
      case False
      with a1 have "r1 = r" by (auto dest: unchanged)
      with b1 False show ?thesis by (auto split: option.splits)
    qed
  qed
qed

lemma anonymize_experts_identities:
  "anonymize_experts g es data = Inr (es', data') \<Longrightarrow>
   length (identities g (length es)) = length es \<and>
   list_all2 (\<lambda>e' (e, i). map_of e' = rewritten_expert i e)
     es' (zip es (identities g (length es)))"
proof (induction es arbitrary: g data es' data')
  case Nil
  then show ?case by simp
next
  case (Cons ex es)
  from Cons.prems obtain oid i g' data1 ex' rest' where
    s: "map_of ex ''Id'' = Some oid" "new_identity g = Inr (i, g')"
      "anonymize_records oid i data = Inr data1"
      "anonymize_expert i (remove_data ex) = Inr ex'"
      "anonymize_experts g' es data1 = Inr (rest', data')" "es' = ex' # rest'"
    by (rule anonymize_experts_Cons_Inr)
  from Cons.IH[OF s(5)] anonymize_expert_rewritten[OF s(4)] s(2,6) show ?case by simp
qed

lemma anonymize_data_rewritten:
  assumes "fs (data_path ''original_data.json'') = Some data"
    and "fs (data_path ''experts.json'') = Some experts"
    and "anonymize_data fake fs = (Inr (), fs')"
    and "collision_free experts (identities fake (length experts)) data"
  obtains experts' works' where
    "fs' (data_path ''experts_cleaned.json'') = Some experts'"
    "fs' (data_path ''works_cleaned.json'') = Some works'"
    "length experts' = length experts" "length works' = length data"
    "\<And>j. j < length experts \<Longrightarrow>
       map_of (experts' ! j) = rewritten_expert (identities fake (length experts) ! j) (experts ! j)"
    "\<And>j. j < length experts \<Longrightarrow>
       get (experts' ! j) ''Id'' = JNum (fake_id (identities fake (length experts) ! j))"
    "\<And>j k. k < length data \<Longrightarrow> first_match experts j (data ! k) \<Longrightarrow>
       map_of (works' ! k) = rewritten_work (identities fake (length experts) ! j) (data ! k)"
    "\<And>j k. k < length data \<Longrightarrow> first_match experts j (data ! k) \<Longrightarrow>
       get (works' ! k) ''ExpertId'' = JNum (fake_id (identities fake (length experts) ! j))"
    "\<And>k. k < length data \<Longrightarrow> list_all (\<lambda>e. \<not> matches e (data ! k)) experts \<Longrightarrow>
       works' ! k = data ! k"
    "distinct (map (\<lambda>e. get e ''Id'') experts')"
proof -
  from assms(1-3) obtain experts' works' where
    r: "anonymize_experts fake experts data = Inr (experts', works')" and
    f: "fs' (data_path ''experts_cleaned.json'') = Some experts'"
       "fs' (data_path ''works_cleaned.json'') = Some works'"
    by (rule anonymize_data_Inr)
  let ?ids = "identities fake (length experts)"
  from anonymize_experts_length[OF r] have
    len: "length experts' = length experts" "length works' = length data"
    by simp_all
  from anonymize_experts_identities[OF r] have
    li: "length ?ids = length experts" and
    le: "list_all2 (\<lambda>e' (e, i). map_of e' = rewritten_expert i e) experts' (zip experts ?ids)"
    by simp_all
  note lw = anonymize_experts_first_match[OF r assms(4)]
  from anonymize_experts_Inr_ids_present[OF r] have ip: "ids_present experts data" .
  have e: "map_of (experts' ! j) = rewritten_expert (?ids ! j) (experts ! j)"
    if "j < length experts" for j
    using list_all2_nthD[OF le] that len(1) li by simp
  have eid: "get (experts' ! j) ''Id'' = JNum (fake_id (?ids ! j))"
    if j: "j < length experts" for j
  proof -
    from ip j have "has_key (experts ! j) ''Id''"
      by (auto simp: ids_present_def list_all_iff)
    with e[OF j] show ?thesis by (rule rewritten_expert_Id)
  qed
  have w: "map_of (works' ! k) = rewritten_work (?ids ! j) (data ! k)"
    if k: "k < length data" and fm: "first_match experts j (data ! k)" for j k
    using list_all2_nthD[OF lw k] assigned_first_match[OF fm li] by simp
  have wid: "get (works' ! k) ''ExpertId'' = JNum (fake_id (?ids ! j))"
    if k: "k < length data" and fm: "first_match experts j (data ! k)" for j k
  proof -
    from fm have "experts \<noteq> []" by (auto simp: first_match_def)
    with ip k have "has_key (data ! k) ''ExpertId''"
      by (auto simp: ids_present_def list_all_iff)
    with w[OF k fm] show ?thesis by (rule rewritten_work_ExpertId)
  qed
  have u: "works' ! k = data ! k"
    if k: "k < length data" and n: "list_all (\<lambda>e. \<not> matches e (data ! k)) experts" for k
    using list_all2_nthD[OF lw k] assigned_none[OF n, of ?ids] by simp
  from anonymize_experts_ids[OF r] obtain idl where
    "map (\<lambda>e. get e ''Id'') experts' = map JNum idl" "distinct idl"
    by blast
  then have d: "distinct (map (\<lambda>e. get e ''Id'') experts')"
    by (simp add: distinct_map inj_on_def)
  from f len e eid w wid u d show ?thesis by (rule that)
qed

text \<open>
  Claim C5, as amended. In a run of \<^verbatim>\<open>anonymize_data\<close> that returns and in which no
  record is rewritten twice (\<^const>\<open>collision_free\<close>), there is one synthetic identity
  per expert: the \<open>j\<close>-th expert is rewritten from the \<open>j\<close>-th identity that the
  generator hands out, and so is every work or output whose original \<^verbatim>\<open>ExpertId\<close>
  equals that expert's original \<^verbatim>\<open>Id\<close> (the first such expert, when several share
  it). The expert's \<^verbatim>\<open>Id\<close> and the record's \<^verbatim>\<open>ExpertId\<close> become its id; the
  expert's \<^verbatim>\<open>Title\<close> and the record's \<^verbatim>\<open>Owner\<close> its full name; the expert's
  \<^verbatim>\<open>FirstName\<close> and \<^verbatim>\<open>LastName\<close> its names; \<^verbatim>\<open>Email\<close>, \<^verbatim>\<open>Phone\<close> and
  \<^verbatim>\<open>Mobile\<close> of both its e-mail address, phone and mobile numbers, each where the
  field is present (\<^const>\<open>rewritten_expert\<close>, \<^const>\<open>rewritten_work\<close>). A record that
  matches no expert is written as it was read and keeps its original values.
\<close>

theorem anonymize_data_shares_identity:
  assumes "fs (data_path ''original_data.json'') = Some data"
    and "fs (data_path ''experts.json'') = Some experts"
    and "anonymize_data fake fs = (Inr (), fs')"
    and "collision_free experts (identities fake (length experts)) data"
  shows "\<exists>experts' works'.
     fs' (data_path ''experts_cleaned.json'') = Some experts' \<and>
     fs' (data_path ''works_cleaned.json'') = Some works' \<and>
     length experts' = length experts \<and> length works' = length data \<and>
     (\<forall>j<length experts.
        map_of (experts' ! j)
          = rewritten_expert (identities fake (length experts) ! j) (experts ! j) \<and>
        get (experts' ! j) ''Id'' = JNum (fake_id (identities fake (length experts) ! j)) \<and>
        (\<forall>k<length data. first_match experts j (data ! k) \<longrightarrow>
           map_of (works' ! k)
             = rewritten_work (identities fake (length experts) ! j) (data ! k) \<and>
           get (works' ! k) ''ExpertId''
             = JNum (fake_id (identities fake (length experts) ! j)))) \<and>
     (\<forall>k<length data.
        list_all (\<lambda>e. \<not> matches e (data ! k)) experts \<longrightarrow> works' ! k = data ! k)"
proof -
  obtain experts' works' where
    "fs' (data_path ''experts_cleaned.json'') = Some experts'"
    "fs' (data_path ''works_cleaned.json'') = Some works'"
    "length experts' = length experts" "length works' = length data"
    "\<And>j. j < length experts \<Longrightarrow>
       map_of (experts' ! j) = rewritten_expert (identities fake (length experts) ! j) (experts ! j)"
    "\<And>j. j < length experts \<Longrightarrow>
       get (experts' ! j) ''Id'' = JNum (fake_id (identities fake (length experts) ! j))"
    "\<And>j k. k < length data \<Longrightarrow> first_match experts j (data ! k) \<Longrightarrow>
       map_of (works' ! k) = rewritten_work (identities fake (length experts) ! j) (data ! k)"
    "\<And>j k. k < length data \<Longrightarrow> first_match experts j (data ! k) \<Longrightarrow>
       get (works' ! k) ''ExpertId'' = JNum (fake_id (identities fake (length experts) ! j))"
    "\<And>k. k < length data \<Longrightarrow> list_all (\<lambda>e. \<not> matches e (data ! k)) experts \<Longrightarrow>
       works' ! k = data ! k"
    by (rule anonymize_data_rewritten[OF assms]) blast
  then show ?thesis by blast
qed

lemma demo_identities:
  "identities counting_faker (length demo_experts) =
     [\<lparr>fake_id = 111111, fake_name = ''Ann'', fake_last_name = ''Lee'',
       fake_phone = ''555'', fake_mobile = ''555''\<rparr>,
      \<lparr>fake_id = 111116, fake_name = ''Ann'', fake_last_name = ''Lee'',
       fake_phone = ''555'', fake_mobile = ''555''\<rparr>]"
  apply (subst counting_faker_start)
  apply (simp add: demo_experts_def new_identity_counting)
  done

lemma demo_collision_free:
  "collision_free demo_experts (identities counting_faker (length demo_experts)) demo_data"
  unfolding demo_identities
  by (simp add: demo_experts_def demo_data_def matches_def get_def)

text \<open>
  Witness for C5: the example run, in which the first expert is the first match of the
  first and the third record and no expert matches the second.
\<close>

theorem anonymize_data_shares_identity_witness:
  "(\<exists>experts' works'.
     snd (anonymize_data counting_faker demo_files) (data_path ''experts_cleaned.json'')
       = Some experts' \<and>
     snd (anonymize_data counting_faker demo_files) (data_path ''works_cleaned.json'')
       = Some works' \<and>
     length experts' = length demo_experts \<and> length works' = length demo_data \<and>
     (\<forall>j<length demo_experts.
        map_of (experts' ! j)
          = rewritten_expert (identities counting_faker (length demo_experts) ! j)
              (demo_experts ! j) \<and>
        get (experts' ! j) ''Id''
          = JNum (fake_id (identities counting_faker (length demo_experts) ! j)) \<and>
        (\<forall>k<length demo_data. first_match demo_experts j (demo_data ! k) \<longrightarrow>
           map_of (works' ! k)
             = rewritten_work (identities counting_faker (length demo_experts) ! j)
                 (demo_data ! k) \<and>
           get (works' ! k) ''ExpertId''
             = JNum (fake_id (identities counting_faker (length demo_experts) ! j)))) \<and>
     (\<forall>k<length demo_data.
        list_all (\<lambda>e. \<not> matches e (demo_data ! k)) demo_experts \<longrightarrow>
        works' ! k = demo_data ! k)) \<and>
   collision_free demo_experts (identities counting_faker (length demo_experts)) demo_data \<and>
   first_match demo_experts 0 (demo_data ! 0) \<and>
   first_match demo_experts 0 (demo_data ! 2) \<and>
   list_all (\<lambda>e. \<not> matches e (demo_data ! 1)) demo_experts"
proof (intro conjI)
  show "\<exists>experts' works'.
     snd (anonymize_data counting_faker demo_files) (data_path ''experts_cleaned.json'')
       = Some experts' \<and>
     snd (anonymize_data counting_faker demo_files) (data_path ''works_cleaned.json'')
       = Some works' \<and>
     length experts' = length demo_experts \<and> length works' = length demo_data \<and>
     (\<forall>j<length demo_experts.
        map_of (experts' ! j)
          = rewritten_expert (identities counting_faker (length demo_experts) ! j)
              (demo_experts ! j) \<and>
        get (experts' ! j) ''Id''
          = JNum (fake_id (identities counting_faker (length demo_experts) ! j)) \<and>
        (\<forall>k<length demo_data. first_match demo_experts j (demo_data ! k) \<longrightarrow>
           map_of (works' ! k)
             = rewritten_work (identities counting_faker (length demo_experts) ! j)
                 (demo_data ! k) \<and>
           get (works' ! k) ''ExpertId''
             = JNum (fake_id (identities counting_faker (length demo_experts) ! j)))) \<and>
     (\<forall>k<length demo_data.
        list_all (\<lambda>e. \<not> matches e (demo_data ! k)) demo_experts \<longrightarrow>
        works' ! k = demo_data ! k)"
    by (rule anonymize_data_shares_identity[OF demo_files_lookup(1) demo_files_lookup(2),
          where fake = counting_faker and fs' = "snd (anonymize_data counting_faker demo_files)"])
       (simp_all add: demo_anonymize_data demo_collision_free)
  show "collision_free demo_experts (identities counting_faker (length demo_experts)) demo_data"
    by (rule demo_collision_free)
  show "first_match demo_experts 0 (demo_data ! 0)"
    by (simp add: first_match_def matches_def demo_experts_def demo_data_def get_def)
  show "first_match demo_experts 0 (demo_data ! 2)"
    by (simp add: first_match_def matches_def demo_experts_def demo_data_def get_def)
  show "list_all (\<lambda>e. \<not> matches e (demo_data ! 1)) demo_experts"
    by (simp add: matches_def demo_experts_def demo_data_def get_def)
qed

text \<open>
  Counterexample to C5 as stated: the second record of the example run matches no
  expert and is written with its original \<^verbatim>\<open>Owner\<close> and \<^verbatim>\<open>Email\<close>.
\<close>

theorem unmatched_work_keeps_contacts:
  "snd (anonymize_data counting_faker demo_files) (data_path ''works_cleaned.json'')
     = Some demo_works_cleaned \<and>
   get (demo_data ! 1) ''Owner'' = JStr ''Sam Poe'' \<and>
   get (demo_data ! 1) ''Email'' = JStr ''sam@example.org'' \<and>
   get (demo_works_cleaned ! 1) ''Owner'' = JStr ''Sam Poe'' \<and>
   get (demo_works_cleaned ! 1) ''Email'' = JStr ''sam@example.org''"
  by (simp add: demo_anonymize_data data_path_def demo_works_cleaned_def demo_data_def get_def)

section \<open>Linkage after the substitution\<close>













text \<open>
  When the id generated for an expert that has a record equals the original \<^verbatim>\<open>Id\<close>
  of a later expert, the inner loop of the later expert compares against the
  \<^verbatim>\<open>ExpertId\<close> already rewritten: here the first expert receives the id 111111,
  which is the second expert's original \<^verbatim>\<open>Id\<close>, and the first expert's work ends
  with the second expert's synthetic id 111116, so that no work carries the first
  expert's new \<^verbatim>\<open>Id\<close>. This is the run that \<^const>\<open>collision_free\<close> excludes.
\<close>

lemma collision_relinks_work:
  "anonymize_experts counting_faker
     [[(''Id'', JNum 1)], [(''Id'', JNum 111111)]]
     [[(''ExpertId'', JNum 1)], [(''ExpertId'', JNum 111111)]]
   = Inr ([[(''Id'', JNum 111111)], [(''Id'', JNum 111116)]],
          [[(''ExpertId'', JNum 111116)], [(''ExpertId'', JNum 111116)]])"
  apply (subst counting_faker_start)
  apply (simp add: new_identity_counting getitem_def
      anonymize_record_def anonymize_expert_def anonymize_contacts_def remove_data_def
      remove_list_def name_list_def works_list_def contact_list_def id_list_def works_id_list_def
      has_key_def get_def)
  done

lemma collision_is_excluded:
  "\<not> collision_free [[(''Id'', JNum 1)], [(''Id'', JNum 111111)]]
       (identities counting_faker 2)
       [[(''ExpertId'', JNum 1)], [(''ExpertId'', JNum 111111)]]"
  apply (subst counting_faker_start)
  apply (simp add: numeral_2_eq_2 new_identity_counting matches_def get_def)
  done


end
